theory Spec2Isabelle
  imports Complex_Main "HOL-Library.Char_ord" "HOL-Library.List_Lexorder" "HOL-Library.Multiset"
begin

section \<open>Values of the host language\<close>

text \<open>
  The data pipeline (class \<open>DataLoader\<close> of \<open>src/app.js\<close>) and the evaluation analyzer
  (\<open>GRUModel\<close> of \<open>src/gru.js\<close>, \<open>MusicPopularityApp\<close> of \<open>src/app.js\<close>) are embedded as
  functions on lists and records.

  Numbers are modelled as exact reals: rounding of doubles and the infinities are outside
  the model. A value that the source may leave \<open>undefined\<close> (a field never assigned, an
  array read out of range) or compute as \<open>NaN\<close> is an \<open>option\<close>, with \<open>None\<close> for
  \<open>undefined\<close>/\<open>NaN\<close>. Strings are byte strings compared by code unit, as the default
  \<open>Array.prototype.sort\<close> compares them (lexicographic order on \<open>char list\<close>).
\<close>

definition js_or :: "real option \<Rightarrow> real \<Rightarrow> real" where
  \<comment> \<open>\<open>x || y\<close> for a number-or-undefined \<open>x\<close>: \<open>undefined\<close>, \<open>NaN\<close> and \<open>0\<close> are falsy\<close>
  "js_or x y = (case x of None \<Rightarrow> y | Some v \<Rightarrow> if v = 0 then y else v)"

definition js_index :: "'a list \<Rightarrow> int \<Rightarrow> 'a option" where
  \<comment> \<open>\<open>xs[k]\<close>: \<open>undefined\<close> outside \<open>0 .. length-1\<close>\<close>
  "js_index xs k = (if 0 \<le> k \<and> nat k < length xs then Some (xs ! nat k) else None)"

fun indexOf :: "'a list \<Rightarrow> 'a \<Rightarrow> int" where
  \<comment> \<open>\<open>xs.indexOf(x)\<close>: the first position of \<open>x\<close>, or \<open>-1\<close>\<close>
  "indexOf [] x = - 1"
| "indexOf (y # ys) x = (if y = x then 0 else (let k = indexOf ys x in if k < 0 then - 1 else k + 1))"

definition slice :: "'a list \<Rightarrow> nat \<Rightarrow> nat \<Rightarrow> 'a list" where
  \<comment> \<open>\<open>xs.slice(a, b)\<close> for non-negative \<open>a\<close>, \<open>b\<close>\<close>
  "slice xs a b = take (b - a) (drop a xs)"

definition set_add :: "'a \<Rightarrow> 'a list \<Rightarrow> 'a list" where
  \<comment> \<open>\<open>Set.prototype.add\<close> on a set kept in insertion order\<close>
  "set_add x s = (if x \<in> set s then s else s @ [x])"

fun map_set :: "'k \<Rightarrow> 'v \<Rightarrow> ('k \<times> 'v) list \<Rightarrow> ('k \<times> 'v) list" where
  \<comment> \<open>\<open>Map.prototype.set\<close> on a map kept in insertion order: an existing key keeps its place\<close>
  "map_set k v [] = [(k, v)]"
| "map_set k v (p # m) = (if fst p = k then (k, v) # m else p # map_set k v m)"

fun insert_by :: "('a \<Rightarrow> 'a \<Rightarrow> real) \<Rightarrow> 'a \<Rightarrow> 'a list \<Rightarrow> 'a list" where
  "insert_by cmp x [] = [x]"
| "insert_by cmp x (y # ys) = (if cmp x y \<le> 0 then x # y # ys else y # insert_by cmp x ys)"

definition js_sort :: "('a \<Rightarrow> 'a \<Rightarrow> real) \<Rightarrow> 'a list \<Rightarrow> 'a list" where
  \<comment> \<open>\<open>xs.sort(cmp)\<close>: a stable sort (ECMAScript 2019); \<open>a\<close> stays before \<open>b\<close> when \<open>cmp a b \<le> 0\<close>\<close>
  "js_sort cmp xs = foldr (insert_by cmp) xs []"

section \<open>Data model\<close>

record entry =
  date :: string
  track_id :: string
  streams :: real
  danceability :: real
  energy :: real
  valence :: real
  acousticness :: real
  streams_momentum :: "real option"
  streams_ma3 :: "real option"
  streams_normalized :: "real option"
  danceability_normalized :: "real option"
  energy_normalized :: "real option"
  streams_momentum_normalized :: "real option"
  streams_ma3_normalized :: "real option"

record metadata =
  meta_id :: string
  meta_name :: string
  totalStreams :: "real option"

record minmax =
  min_val :: real
  max_val :: real

datatype feature = F_streams | F_danceability | F_energy | F_streams_momentum | F_streams_ma3

type_synonym params = "feature \<rightharpoonup> minmax"

fun get_feature :: "entry \<Rightarrow> feature \<Rightarrow> real option" where
  \<comment> \<open>\<open>d[feature]\<close>\<close>
  "get_feature d F_streams = Some (streams d)"
| "get_feature d F_danceability = Some (danceability d)"
| "get_feature d F_energy = Some (energy d)"
| "get_feature d F_streams_momentum = streams_momentum d"
| "get_feature d F_streams_ma3 = streams_ma3 d"

record loader =
  data :: "entry list"
  tracks :: "string list"
  dates :: "string list"
  trackMetadata :: "(string \<times> metadata) list"
  normalizationParams :: "string \<rightharpoonup> params"
  selectedTracks :: "string list"

definition new_loader :: loader where
  \<comment> \<open>the constructor (\<open>data\<close> is \<open>null\<close> there; \<open>parseCSV\<close> sets it to \<open>[]\<close> before any use)\<close>
  "new_loader = \<lparr>data = [], tracks = [], dates = [], trackMetadata = [],
     normalizationParams = Map.empty, selectedTracks = []\<rparr>"

section \<open>Normalizer\<close>

definition minMaxNormalize :: "real \<Rightarrow> minmax option \<Rightarrow> real" where
  "minMaxNormalize v p = (case p of
       Some mm \<Rightarrow> if max_val mm > min_val mm then (v - min_val mm) / (max_val mm - min_val mm) else 0.5
     | None \<Rightarrow> 0.5)"

definition sortedDates :: "loader \<Rightarrow> string list" where
  \<comment> \<open>\<open>Array.from(this.dates).sort()\<close>\<close>
  "sortedDates L = sort (dates L)"

definition splitIndex :: "nat \<Rightarrow> nat" where
  \<comment> \<open>\<open>Math.floor(sortedDates.length * 0.8)\<close>\<close>
  "splitIndex n = nat \<lfloor>real n * 0.8\<rfloor>"

definition trainingDates :: "loader \<Rightarrow> string set" where
  "trainingDates L = set (slice (sortedDates L) 0 (splitIndex (length (sortedDates L))))"

definition feature_params :: "entry list \<Rightarrow> feature \<Rightarrow> minmax" where
  \<comment> \<open>the body of \<open>features.forEach\<close>: \<open>values\<close> drops \<open>undefined\<close>/\<open>NaN\<close>\<close>
  "feature_params trackData f = (case List.map_filter (\<lambda>d. get_feature d f) trackData of
       [] \<Rightarrow> \<lparr>min_val = 0, max_val = 1\<rparr>
     | v # vs \<Rightarrow> \<lparr>min_val = fold min vs v, max_val = fold max vs v\<rparr>)"

definition features :: "feature list" where
  "features = [F_streams, F_danceability, F_energy, F_streams_momentum, F_streams_ma3]"

definition track_params :: "loader \<Rightarrow> string \<Rightarrow> params" where
  "track_params L trackId =
     (let trackData = filter (\<lambda>d. track_id d = trackId \<and> date d \<in> trainingDates L) (data L)
      in fold (\<lambda>f p. p(f \<mapsto> feature_params trackData f)) features Map.empty)"

definition fit_params :: "loader \<Rightarrow> (string \<rightharpoonup> params)" where
  \<comment> \<open>the first \<open>forEach\<close> of \<open>normalizeFeatures\<close>, starting from a new map\<close>
  "fit_params L = fold (\<lambda>t m. m(t \<mapsto> track_params L t)) (selectedTracks L) Map.empty"

definition normalize_entry :: "(string \<rightharpoonup> params) \<Rightarrow> entry \<Rightarrow> entry" where
  "normalize_entry np e = (case np (track_id e) of
       Some p \<Rightarrow> e\<lparr>streams_normalized := Some (minMaxNormalize (streams e) (p F_streams)),
                  danceability_normalized := Some (minMaxNormalize (danceability e) (p F_danceability)),
                  energy_normalized := Some (minMaxNormalize (energy e) (p F_energy)),
                  streams_momentum_normalized :=
                    Some (minMaxNormalize (js_or (streams_momentum e) 0) (p F_streams_momentum)),
                  streams_ma3_normalized :=
                    Some (minMaxNormalize (js_or (streams_ma3 e) (streams e)) (p F_streams_ma3))\<rparr>
     | None \<Rightarrow> e\<lparr>streams_normalized := Some 0.5,
                  danceability_normalized := Some 0.5,
                  energy_normalized := Some 0.5,
                  streams_momentum_normalized := Some 0.5,
                  streams_ma3_normalized := Some 0.5\<rparr>)"

definition normalizeFeatures :: "loader \<Rightarrow> loader" where
  "normalizeFeatures L =
     (let np = fit_params L
      in L\<lparr>normalizationParams := np, data := map (normalize_entry np) (data L)\<rparr>)"

section \<open>Window builder\<close>

definition find_entry :: "entry list \<Rightarrow> string option \<Rightarrow> string \<Rightarrow> entry option" where
  \<comment> \<open>\<open>this.data.find(d => d.date === date && d.track_id === trackId)\<close>; the date is
      \<open>undefined\<close> (\<open>None\<close>) when it was read past the end of the date list\<close>
  "find_entry ds dt trackId = List.find (\<lambda>d. Some (date d) = dt \<and> track_id d = trackId) ds"

definition track_features :: "entry list \<Rightarrow> string \<Rightarrow> string \<Rightarrow> real list" where
  \<comment> \<open>the body of the inner loop of \<open>createSample\<close>\<close>
  "track_features ds dt trackId = (case find_entry ds (Some dt) trackId of
       Some e \<Rightarrow> [js_or (streams_normalized e) 0,
                  js_or (danceability_normalized e) 0,
                  js_or (energy_normalized e) 0,
                  js_or (streams_momentum_normalized e) 0,
                  js_or (streams_ma3_normalized e) 0]
     | None \<Rightarrow> [0, 0, 0, 0, 0])"

definition dayFeatures :: "loader \<Rightarrow> string \<Rightarrow> real list" where
  "dayFeatures L dt = concat (map (track_features (data L) dt) (selectedTracks L))"

definition createSample :: "loader \<Rightarrow> string list \<Rightarrow> real list list option" where
  "createSample L windowDates =
     (let sample = map (dayFeatures L) windowDates
      in if length sample = length windowDates then Some sample else None)"

fun target_offsets :: "entry list \<Rightarrow> string list \<Rightarrow> int \<Rightarrow> string \<Rightarrow> real \<Rightarrow> nat list \<Rightarrow> real list option" where
  \<comment> \<open>the loop over \<open>offset\<close> of \<open>createTarget\<close>; \<open>None\<close> is the early \<open>return null\<close>\<close>
  "target_offsets ds sd idx trackId currentStreams [] = Some []"
| "target_offsets ds sd idx trackId currentStreams (offset # os) =
     (case find_entry ds (js_index sd (idx + int offset)) trackId of
        None \<Rightarrow> None
      | Some futureEntry \<Rightarrow>
          map_option ((#) (if streams futureEntry > currentStreams then 1 else 0))
            (target_offsets ds sd idx trackId currentStreams os))"

fun target_tracks :: "entry list \<Rightarrow> string list \<Rightarrow> string \<Rightarrow> int \<Rightarrow> string list \<Rightarrow> real list option" where
  \<comment> \<open>the loop over \<open>this.selectedTracks\<close> of \<open>createTarget\<close>\<close>
  "target_tracks ds sd currentDate idx [] = Some []"
| "target_tracks ds sd currentDate idx (trackId # ts) =
     (case find_entry ds (Some currentDate) trackId of
        None \<Rightarrow> None
      | Some currentEntry \<Rightarrow>
          (case target_offsets ds sd idx trackId (streams currentEntry) [1, 2, 3] of
             None \<Rightarrow> None
           | Some xs \<Rightarrow> map_option ((@) xs) (target_tracks ds sd currentDate idx ts)))"

definition createTarget :: "loader \<Rightarrow> string \<Rightarrow> real list option" where
  "createTarget L currentDate =
     (let sd = sortedDates L; currentDateIndex = indexOf sd currentDate
      in target_tracks (data L) sd currentDate currentDateIndex (selectedTracks L))"

definition windowSize :: nat where
  "windowSize = 7"

definition window_at :: "loader \<Rightarrow> string list \<Rightarrow> nat \<Rightarrow> (real list list \<times> real list) option" where
  \<comment> \<open>the body of the loop of \<open>createSlidingWindows\<close> at index \<open>i\<close>; \<open>Some\<close> is the push\<close>
  "window_at L sd i =
     (case createSample L (slice sd (i - windowSize) i) of
        None \<Rightarrow> None
      | Some sample \<Rightarrow>
          (case createTarget L (sd ! i) of
             None \<Rightarrow> None
           | Some target \<Rightarrow>
               if length target = length (selectedTracks L) * 3 then Some (sample, target) else None))"

definition candidates :: "nat \<Rightarrow> nat list" where
  \<comment> \<open>\<open>for (let i = windowSize; i < sortedDates.length - 3; i++)\<close>; below three dates the
      truncated difference is \<open>0\<close> and the range empty, as it is for the negative bound\<close>
  "candidates n = [windowSize ..< n - 3]"

definition createSlidingWindows :: "loader \<Rightarrow> loader \<times> real list list list \<times> real list list" where
  \<comment> \<open>returns the loader after normalization, and \<open>samples\<close> and \<open>targets\<close> as they are handed
      to \<open>splitData\<close>\<close>
  "createSlidingWindows L0 =
     (let L = normalizeFeatures L0;
          sd = sortedDates L;
          ws = List.map_filter (window_at L sd) (candidates (length sd))
      in (L, map fst ws, map snd ws))"

section \<open>Track selector\<close>

definition trackStreams_of :: "entry list \<Rightarrow> (string \<times> real) list" where
  \<comment> \<open>the \<open>trackStreams\<close> map after \<open>this.data.forEach\<close>\<close>
  "trackStreams_of ds =
     fold (\<lambda>e m. map_set (track_id e) (js_or (map_of m (track_id e)) 0 + streams e) m) ds []"

definition selectTopTracks :: "nat \<Rightarrow> loader \<Rightarrow> loader" where
  "selectTopTracks n L =
     (let trackStreams = trackStreams_of (data L);
          sortedTracks = map fst (take n (js_sort (\<lambda>a b. snd b - snd a) trackStreams));
          data' = filter (\<lambda>e. track_id e \<in> set sortedTracks) (data L);
          md = fold (\<lambda>trackId m.
                 case List.find (\<lambda>d. track_id d = trackId) data' of
                   Some trackData \<Rightarrow>
                     map_set trackId \<lparr>meta_id = trackId, meta_name = trackId,
                                      totalStreams = map_of trackStreams trackId\<rparr> m
                 | None \<Rightarrow> m) sortedTracks (trackMetadata L)
      in L\<lparr>selectedTracks := sortedTracks, data := data', trackMetadata := md\<rparr>)"

section \<open>Record store\<close>

datatype error = TypeError | ShapeError

definition is_space :: "char \<Rightarrow> bool" where
  \<comment> \<open>the white space that \<open>String.prototype.trim\<close> removes, among single bytes\<close>
  "is_space c = (c \<in> set [CHR 0x09, CHR 0x0A, CHR 0x0B, CHR 0x0C, CHR 0x0D, CHR 0x20])"

definition trim :: "string \<Rightarrow> string" where
  "trim s = rev (dropWhile is_space (rev (dropWhile is_space s)))"

definition strip_quotes :: "string \<Rightarrow> string" where
  \<comment> \<open>\<open>.replace(/"/g, '')\<close>\<close>
  "strip_quotes s = filter (\<lambda>c. c \<noteq> CHR 0x22) s"

fun split_on :: "char \<Rightarrow> string \<Rightarrow> string list" where
  \<comment> \<open>\<open>s.split(sep)\<close> for a one-character separator\<close>
  "split_on sep [] = [[]]"
| "split_on sep (c # cs) =
     (if c = sep then [] # split_on sep cs
      else (case split_on sep cs of [] \<Rightarrow> [[c]] | w # ws \<Rightarrow> (c # w) # ws))"

fun scan_line :: "string \<Rightarrow> string \<Rightarrow> bool \<Rightarrow> string list \<Rightarrow> string list" where
  \<comment> \<open>the loop of \<open>parseCSVLine\<close> with its locals \<open>current\<close>, \<open>inQuotes\<close>, \<open>result\<close>\<close>
  "scan_line [] current inQuotes result = result @ [strip_quotes (trim current)]"
| "scan_line (c # cs) current inQuotes result =
     (if c = CHR 0x22 then scan_line cs current (\<not> inQuotes) result
      else if c = CHR 0x2C \<and> \<not> inQuotes then scan_line cs [] inQuotes (result @ [strip_quotes (trim current)])
      else scan_line cs (current @ [c]) inQuotes result)"

definition parseCSVLine :: "string \<Rightarrow> string list" where
  "parseCSVLine line = scan_line line [] False []"

definition to_lower :: "char \<Rightarrow> char" where
  \<comment> \<open>\<open>toLowerCase\<close> on ASCII letters\<close>
  "to_lower c = (if CHR ''A'' \<le> c \<and> c \<le> CHR ''Z'' then char_of (of_char c + (32::nat)) else c)"

fun starts_with :: "string \<Rightarrow> string \<Rightarrow> bool" where
  "starts_with s [] = True"
| "starts_with [] (p # ps) = False"
| "starts_with (c # cs) (p # ps) = (c = p \<and> starts_with cs ps)"

fun includes_str :: "string \<Rightarrow> string \<Rightarrow> bool" where
  \<comment> \<open>\<open>s.includes(sub)\<close>\<close>
  "includes_str [] sub = (sub = [])"
| "includes_str (c # cs) sub = (starts_with (c # cs) sub \<or> includes_str cs sub)"

fun findIndex :: "('a \<Rightarrow> bool) \<Rightarrow> 'a list \<Rightarrow> int" where
  "findIndex P [] = - 1"
| "findIndex P (x # xs) = (if P x then 0 else (let k = findIndex P xs in if k < 0 then - 1 else k + 1))"

definition locate :: "string list \<Rightarrow> string \<Rightarrow> int" where
  \<comment> \<open>\<open>headers.findIndex(h => h.toLowerCase().includes(name))\<close>\<close>
  "locate headers name = findIndex (\<lambda>h. includes_str (map to_lower h) name) headers"

record columns =
  dateIdx :: int
  trackIdx :: int
  streamsIdx :: int
  danceabilityIdx :: int
  energyIdx :: int
  valenceIdx :: int
  acousticnessIdx :: int

definition num_field :: "(string \<Rightarrow> real option) \<Rightarrow> string list \<Rightarrow> int \<Rightarrow> real" where
  \<comment> \<open>\<open>parseFloat(values[k]) || 0\<close>; the builtin \<open>parseFloat\<close> is a parameter, \<open>None\<close> its
      \<open>NaN\<close>, and \<open>parseFloat(undefined)\<close> is \<open>NaN\<close>\<close>
  "num_field parseFloat values k = js_or (Option.bind (js_index values k) parseFloat) 0"

definition push_entry :: "entry \<Rightarrow> loader \<Rightarrow> loader" where
  \<comment> \<open>\<open>this.data.push(entry); this.tracks.add(entry.track_id); this.dates.add(entry.date)\<close>\<close>
  "push_entry e L = L\<lparr>data := data L @ [e],
                       tracks := set_add (track_id e) (tracks L),
                       dates := set_add (date e) (dates L)\<rparr>"

definition parse_row :: "(string \<Rightarrow> real option) \<Rightarrow> columns \<Rightarrow> string list \<Rightarrow> loader \<Rightarrow> loader" where
  \<comment> \<open>the body of the row loop of \<open>parseCSV\<close>; \<open>undefined\<close> and the empty string are falsy\<close>
  "parse_row parseFloat c values L =
     (if int (length values) \<ge>
           max (dateIdx c) (max (trackIdx c) (max (streamsIdx c) (max (danceabilityIdx c) (energyIdx c))))
      then (case (js_index values (dateIdx c), js_index values (trackIdx c)) of
              (Some d, Some t) \<Rightarrow>
                if t \<noteq> [] \<and> d \<noteq> []
                then push_entry
                       \<lparr>date = d, track_id = t,
                        streams = num_field parseFloat values (streamsIdx c),
                        danceability = num_field parseFloat values (danceabilityIdx c),
                        energy = num_field parseFloat values (energyIdx c),
                        valence = num_field parseFloat values (valenceIdx c),
                        acousticness = num_field parseFloat values (acousticnessIdx c),
                        streams_momentum = None, streams_ma3 = None,
                        streams_normalized = None, danceability_normalized = None,
                        energy_normalized = None, streams_momentum_normalized = None,
                        streams_ma3_normalized = None\<rparr> L
                else L
            | _ \<Rightarrow> L)
      else L)"

definition locate_columns :: "string list \<Rightarrow> columns" where
  "locate_columns headers =
     \<lparr>dateIdx = locate headers ''date'', trackIdx = locate headers ''track'',
      streamsIdx = locate headers ''stream'', danceabilityIdx = locate headers ''danceability'',
      energyIdx = locate headers ''energy'', valenceIdx = locate headers ''valence'',
      acousticnessIdx = locate headers ''acousticness''\<rparr>"

definition parse_rows :: "(string \<Rightarrow> real option) \<Rightarrow> columns \<Rightarrow> string list \<Rightarrow> loader \<Rightarrow> loader" where
  \<comment> \<open>\<open>this.data = []\<close> and the row loop over \<open>lines[1 ..]\<close>\<close>
  "parse_rows parseFloat c rows L =
     fold (\<lambda>line. parse_row parseFloat c (parseCSVLine line)) rows (L\<lparr>data := []\<rparr>)"

definition engineer_track :: "string \<Rightarrow> entry list \<Rightarrow> error + entry list" where
  \<comment> \<open>the body of \<open>engineerFeatures\<close> for one track. \<open>trackData\<close> holds the objects of
      \<open>this.data\<close> themselves, so it is kept as the list \<open>pos\<close> of their positions, sorted
      stably by date (\<open>localeCompare\<close> taken as the code-unit order); writing to
      \<open>trackData[0]\<close> of an empty array raises\<close>
  "engineer_track trackId ds =
     (let pos = sort_key (\<lambda>i. date (ds ! i)) (filter (\<lambda>i. track_id (ds ! i) = trackId) [0 ..< length ds]);
          s = (\<lambda>k. streams (ds ! (pos ! k)));
          ds1 = fold (\<lambda>i d. d[pos ! i := (d ! (pos ! i))\<lparr>streams_momentum := Some (s i - s (i - 1))\<rparr>])
                  [1 ..< length pos] ds;
          ds2 = fold (\<lambda>i d. d[pos ! i := (d ! (pos ! i))\<lparr>streams_ma3 := Some ((s i + s (i - 1) + s (i - 2)) / 3)\<rparr>])
                  [2 ..< length pos] ds1
      in if pos = [] then Inl TypeError
         else (let ds3 = ds2[pos ! 0 := (ds2 ! (pos ! 0))\<lparr>streams_momentum := Some 0, streams_ma3 := Some (s 0)\<rparr>]
               in Inr (if 1 < length pos
                       then ds3[pos ! 1 := (ds3 ! (pos ! 1))\<lparr>streams_ma3 := Some ((s 1 + s 0) / 2)\<rparr>]
                       else ds3)))"

fun engineer_tracks :: "string list \<Rightarrow> entry list \<Rightarrow> error + entry list" where
  "engineer_tracks [] ds = Inr ds"
| "engineer_tracks (t # ts) ds = (case engineer_track t ds of Inl e \<Rightarrow> Inl e | Inr ds' \<Rightarrow> engineer_tracks ts ds')"

definition engineerFeatures :: "loader \<Rightarrow> error + loader" where
  "engineerFeatures L = (case engineer_tracks (selectedTracks L) (data L) of
       Inl e \<Rightarrow> Inl e
     | Inr ds \<Rightarrow> Inr (L\<lparr>data := ds\<rparr>))"

definition parseCSV :: "(string \<Rightarrow> real option) \<Rightarrow> string \<Rightarrow> loader \<Rightarrow> error + loader" where
  \<comment> \<open>reading \<open>lines[0]\<close> of a text without a non-blank line raises\<close>
  "parseCSV parseFloat csvText L =
     (case filter (\<lambda>line. trim line \<noteq> []) (split_on (CHR 0x0A) csvText) of
        [] \<Rightarrow> Inl TypeError
      | header # rows \<Rightarrow>
          (let headers = map (\<lambda>h. strip_quotes (trim h)) (split_on (CHR 0x2C) header)
           in engineerFeatures
                (selectTopTracks 10 (parse_rows parseFloat (locate_columns headers) rows L))))"

section \<open>Evaluation analyzer\<close>

text \<open>
  A tensor of rank two is its shape and its values in row-major order.
  \<open>computeConsistentAccuracy\<close> is the method of \<open>src/gru.js\<close>. An older copy of the class
  (\<open>src/unnamed/part_001\<close>) divides by \<open>tf.size(y_true)\<close> instead; the comment above the
  method in \<open>src/gru.js\<close> records that call as failing and as replaced by the product of
  the two dimensions of the shape.
\<close>

record tensor2d =
  shape :: "nat \<times> nat"
  vals :: "real list"

definition tensor2d_of :: "real list list \<Rightarrow> error + tensor2d" where
  \<comment> \<open>\<open>tf.tensor2d(rows)\<close> on a nested array: the shape is inferred and the values are kept
      row-major; an empty or ragged array is refused\<close>
  "tensor2d_of rows = (case rows of
       [] \<Rightarrow> Inl ShapeError
     | r # rs \<Rightarrow> if list_all (\<lambda>x. length x = length r) rs
                then Inr \<lparr>shape = (length rows, length r), vals = concat rows\<rparr>
                else Inl ShapeError)"

definition arraySync :: "tensor2d \<Rightarrow> real list list" where
  "arraySync t = map (\<lambda>i. take (snd (shape t)) (drop (i * snd (shape t)) (vals t))) [0 ..< fst (shape t)]"

definition greater_cast :: "real \<Rightarrow> real list \<Rightarrow> real list" where
  \<comment> \<open>\<open>t.greater(c).cast('float32')\<close> on the values\<close>
  "greater_cast c xs = map (\<lambda>v. if v > c then 1 else 0) xs"

definition equal_sum :: "real list \<Rightarrow> real list \<Rightarrow> nat" where
  \<comment> \<open>\<open>a.equal(b).sum()\<close> on the values of two tensors of one shape\<close>
  "equal_sum xs ys = length (filter (\<lambda>(a, b). a = b) (zip xs ys))"

definition computeConsistentAccuracy :: "tensor2d \<Rightarrow> tensor2d \<Rightarrow> error + real option" where
  \<comment> \<open>\<open>src/gru.js\<close>. Tensors of different shapes are outside the model (the tensor library
      broadcasts them or raises); \<open>None\<close> is the \<open>NaN\<close> of \<open>0 / 0\<close>\<close>
  "computeConsistentAccuracy predictions y_true =
     (if shape predictions \<noteq> shape y_true then Inl ShapeError
      else (let binaryPreds = greater_cast 0.5 (vals predictions);
                binaryTrue = greater_cast 0.5 (vals y_true);
                correct = equal_sum binaryPreds binaryTrue;
                total = fst (shape y_true) * snd (shape y_true)
            in Inr (if total = 0 then None else Some (real correct / real total * 100))))"

definition lift2 :: "(real \<Rightarrow> real \<Rightarrow> real) \<Rightarrow> real option \<Rightarrow> real option \<Rightarrow> real option" where
  \<comment> \<open>arithmetic on numbers that may be \<open>undefined\<close>/\<open>NaN\<close>\<close>
  "lift2 f a b = (case (a, b) of (Some x, Some y) \<Rightarrow> Some (f x y) | _ \<Rightarrow> None)"

definition js_div :: "real option \<Rightarrow> real \<Rightarrow> real option" where
  \<comment> \<open>division by a count: \<open>0 / 0\<close> is \<open>NaN\<close>; a non-zero number over \<open>0\<close> does not occur here\<close>
  "js_div a n = (case a of Some x \<Rightarrow> if n = 0 then None else Some (x / n) | None \<Rightarrow> None)"

definition js_gt :: "real option \<Rightarrow> real \<Rightarrow> bool" where
  \<comment> \<open>\<open>a > b\<close>: false for \<open>NaN\<close>\<close>
  "js_gt a b = (case a of Some x \<Rightarrow> x > b | None \<Rightarrow> False)"

definition calculateRiskLevel :: "real option \<Rightarrow> real option \<Rightarrow> string" where
  "calculateRiskLevel breakoutScore confidence =
     (if js_gt breakoutScore 0.1 \<and> js_gt confidence 0.7 then ''low''
      else if js_gt breakoutScore 0.05 \<and> js_gt confidence 0.6 then ''medium''
      else if js_gt breakoutScore 0 then ''high''
      else ''very-high'')"

record breakout =
  trackId :: string
  trackName :: string
  breakoutScore :: "real option"
  confidence :: "real option"
  trend :: string
  riskLevel :: string

definition trendStrength :: "real option \<Rightarrow> real option \<Rightarrow> real option \<Rightarrow> real option" where
  "trendStrength day1Prob day2Prob day3Prob =
     lift2 (+) (lift2 (*) (lift2 (-) day3Prob day1Prob) (Some 2)) (lift2 (-) day2Prob day1Prob)"

definition overallConfidence :: "real option \<Rightarrow> real option \<Rightarrow> real option \<Rightarrow> real option" where
  "overallConfidence day1Prob day2Prob day3Prob =
     lift2 (/) (lift2 (+) (lift2 (+) day1Prob day2Prob) day3Prob) (Some 3)"

definition breakout_step :: "nat \<Rightarrow> real list \<Rightarrow> real option \<times> real option \<times> nat \<Rightarrow> real option \<times> real option \<times> nat" where
  \<comment> \<open>one round of the loop over \<open>sampleIdx\<close> in \<open>detectBreakoutTracks\<close> on the row
      \<open>predData[sampleIdx]\<close>; the accumulator is \<open>(breakoutScore, confidence, sampleCount)\<close>\<close>
  "breakout_step trackIndex row acc =
     (let day1Prob = js_index row (int (trackIndex * 3));
          day2Prob = js_index row (int (trackIndex * 3 + 1));
          day3Prob = js_index row (int (trackIndex * 3 + 2))
      in (lift2 (+) (fst acc) (trendStrength day1Prob day2Prob day3Prob),
          lift2 (+) (fst (snd acc)) (overallConfidence day1Prob day2Prob day3Prob),
          snd (snd acc) + 1))"

definition track_breakout :: "real list list \<Rightarrow> metadata \<Rightarrow> nat \<Rightarrow> breakout" where
  \<comment> \<open>the callback of \<open>tracks.map\<close> in \<open>detectBreakoutTracks\<close>\<close>
  "track_breakout predData track trackIndex =
     (let acc = fold (breakout_step trackIndex) predData (Some 0, Some 0, 0);
          avgBreakoutScore = js_div (fst acc) (real (snd (snd acc)));
          avgConfidence = js_div (fst (snd acc)) (real (snd (snd acc)))
      in \<lparr>trackId = meta_id track, trackName = meta_name track,
          breakoutScore = lift2 (*) avgBreakoutScore (Some 100),
          confidence = lift2 (*) avgConfidence (Some 100),
          trend = (if js_gt avgBreakoutScore 0 then ''rising'' else ''stable''),
          riskLevel = calculateRiskLevel avgBreakoutScore avgConfidence\<rparr>)"

definition entry_at :: "tensor2d \<Rightarrow> nat \<Rightarrow> nat \<Rightarrow> real" where
  \<comment> \<open>the entry in row \<open>i\<close> and column \<open>j\<close> of a tensor, from its row-major values\<close>
  "entry_at t i j = vals t ! (i * snd (shape t) + j)"

definition detectBreakoutTracks :: "tensor2d \<Rightarrow> (string \<times> metadata) list \<Rightarrow> breakout list" where
  \<comment> \<open>\<open>tracks\<close> are the values of \<open>trackMetadata\<close> in insertion order; a comparator result
      \<open>NaN\<close> counts as \<open>0\<close> in the sort\<close>
  "detectBreakoutTracks predictions trackMetadata' =
     (let predData = arraySync predictions;
          tracks' = map snd trackMetadata';
          breakoutScores = map (\<lambda>(track, trackIndex). track_breakout predData track trackIndex)
                             (zip tracks' [0 ..< length tracks'])
      in js_sort (\<lambda>a b. case lift2 (-) (breakoutScore b) (breakoutScore a) of Some v \<Rightarrow> v | None \<Rightarrow> 0)
           breakoutScores)"

section \<open>Loading files\<close>

definition digit_value :: "char \<Rightarrow> nat" where
  "digit_value c = of_char c - of_char (CHR ''0'')"

definition parseFloat_digits :: "string \<Rightarrow> real option" where
  \<comment> \<open>the builtin \<open>parseFloat\<close> on a string of decimal digits; the concrete inputs below
      have no other numeric field\<close>
  "parseFloat_digits s =
     (if s \<noteq> [] \<and> list_all (\<lambda>c. CHR ''0'' \<le> c \<and> c \<le> CHR ''9'') s
      then Some (real (fold (\<lambda>c n. 10 * n + digit_value c) s 0))
      else None)"

definition unlines :: "string list \<Rightarrow> string" where
  \<comment> \<open>a text from its lines, each ended by a line feed\<close>
  "unlines ls = concat (map (\<lambda>l. l @ [CHR 0x0A]) ls)"

definition load_twice :: "(string \<Rightarrow> real option) \<Rightarrow> string \<Rightarrow> string \<Rightarrow> error + loader" where
  \<comment> \<open>two files loaded one after the other by the one \<open>DataLoader\<close> that
      \<open>MusicPopularityApp\<close> constructs: \<open>handleFileUpload\<close> calls \<open>loadCSV\<close> on it for
      every file chosen (\<open>createSlidingWindows\<close> in between changes only \<open>data\<close>, which
      \<open>parseCSV\<close> resets, and \<open>normalizationParams\<close>)\<close>
  "load_twice parseFloat csv1 csv2 =
     (case parseCSV parseFloat csv1 new_loader of
        Inl e \<Rightarrow> Inl e
      | Inr L1 \<Rightarrow> parseCSV parseFloat csv2 L1)"

section \<open>Notions of the specification\<close>

definition spec_has_observation :: "entry list \<Rightarrow> string \<Rightarrow> string \<Rightarrow> bool" where
  \<comment> \<open>the table has an observation of the track at the date\<close>
  "spec_has_observation ds dt t = (\<exists>d \<in> set ds. date d = dt \<and> track_id d = t)"

definition spec_accepted :: "loader \<Rightarrow> nat \<Rightarrow> bool" where
  \<comment> \<open>every selected track has an observation at the candidate date (the date of index \<open>i\<close>
      of the sorted list) and at each of the three dates after it\<close>
  "spec_accepted L i =
     (\<forall>t \<in> set (selectedTracks L). \<forall>k \<in> {0, 1, 2, 3}.
        spec_has_observation (data L) (sortedDates L ! (i + k)) t)"

definition spec_accepted_indices :: "loader \<Rightarrow> nat list" where
  \<comment> \<open>the accepted candidate indices, in date order\<close>
  "spec_accepted_indices L = filter (spec_accepted L) (candidates (length (sortedDates L)))"

definition spec_label :: "loader \<Rightarrow> nat \<Rightarrow> string \<Rightarrow> nat \<Rightarrow> real" where
  \<comment> \<open>the label of a track at a forecast offset for the candidate of index \<open>i\<close>: \<open>1\<close> iff
      the streams at the future date strictly exceed the streams at the candidate date
      (of the first observation in the table, where there are several)\<close>
  "spec_label L i t off =
     (if streams (the (find_entry (data L) (Some (sortedDates L ! (i + off))) t))
         > streams (the (find_entry (data L) (Some (sortedDates L ! i)) t))
      then 1 else 0)"

definition spec_target :: "loader \<Rightarrow> nat \<Rightarrow> real list" where
  \<comment> \<open>track-major, offset-minor\<close>
  "spec_target L i = concat (map (\<lambda>t. map (spec_label L i t) [1, 2, 3]) (selectedTracks L))"

definition spec_total :: "entry list \<Rightarrow> string \<Rightarrow> real" where
  \<comment> \<open>the total streams of a track\<close>
  "spec_total ds t = sum_list (map streams (filter (\<lambda>e. track_id e = t) ds))"

fun spec_first_seen :: "'a list \<Rightarrow> 'a list" where
  \<comment> \<open>the distinct elements in first-encountered order\<close>
  "spec_first_seen [] = []"
| "spec_first_seen (x # xs) = x # filter (\<lambda>y. y \<noteq> x) (spec_first_seen xs)"

definition spec_ranking :: "entry list \<Rightarrow> string list" where
  \<comment> \<open>the tracks in descending order of total, ties in first-encountered order
      (\<open>sort_key\<close> is a stable insertion sort)\<close>
  "spec_ranking ds = sort_key (\<lambda>t. - spec_total ds t) (spec_first_seen (map track_id ds))"

section \<open>Concrete inputs\<close>

definition row :: "string \<Rightarrow> string \<Rightarrow> real \<Rightarrow> entry" where
  \<comment> \<open>an entry as the row loop creates it, with date, track and streams given\<close>
  "row d t s = \<lparr>date = d, track_id = t, streams = s, danceability = 0, energy = 0, valence = 0,
     acousticness = 0, streams_momentum = None, streams_ma3 = None, streams_normalized = None,
     danceability_normalized = None, energy_normalized = None,
     streams_momentum_normalized = None, streams_ma3_normalized = None\<rparr>"

definition loader_of :: "entry list \<Rightarrow> string list \<Rightarrow> string list \<Rightarrow> loader" where
  "loader_of ds dts sel = new_loader\<lparr>data := ds, dates := dts, selectedTracks := sel\<rparr>"

definition eleven_dates :: "string list" where
  "eleven_dates = [''D00'', ''D01'', ''D02'', ''D03'', ''D04'', ''D05'', ''D06'', ''D07'', ''D08'', ''D09'', ''D10'']"

definition example_rows :: "entry list" where
  \<comment> \<open>two tracks observed on the last four of the eleven dates\<close>
  "example_rows =
     [row ''D07'' ''A'' 5, row ''D07'' ''B'' 2, row ''D08'' ''A'' 6, row ''D08'' ''B'' 1,
      row ''D09'' ''A'' 5, row ''D09'' ''B'' 3, row ''D10'' ''A'' 4, row ''D10'' ''B'' 2]"

definition example_loader :: loader where
  "example_loader = loader_of example_rows eleven_dates [''A'', ''B'']"

definition example_loader_gap :: loader where
  \<comment> \<open>the example without the observation of track \<open>B\<close> at \<open>D09\<close>\<close>
  "example_loader_gap = loader_of (filter (\<lambda>d. \<not> (date d = ''D09'' \<and> track_id d = ''B'')) example_rows)
     eleven_dates [''A'', ''B'']"

definition four_day_loader :: loader where
  "four_day_loader = loader_of
     [row ''D0'' ''A'' 1, row ''D1'' ''A'' 2, row ''D2'' ''A'' 3, row ''D3'' ''A'' 10]
     [''D0'', ''D1'', ''D2'', ''D3''] [''A'']"

definition five_day_loader :: loader where
  "five_day_loader = loader_of
     [row ''D0'' ''A'' 1, row ''D1'' ''A'' 2, row ''D2'' ''A'' 3, row ''D3'' ''A'' 10, row ''D4'' ''A'' 4]
     [''D0'', ''D1'', ''D2'', ''D3'', ''D4''] [''A'']"

section \<open>Facts about the model\<close>

lemma loader_of_simps [simp]:
  "data (loader_of ds dts sel) = ds"
  "dates (loader_of ds dts sel) = dts"
  "selectedTracks (loader_of ds dts sel) = sel"
  "trackMetadata (loader_of ds dts sel) = []"
  by (simp_all add: loader_of_def new_loader_def)

lemma row_simps [simp]:
  "date (row d t s) = d" "track_id (row d t s) = t" "streams (row d t s) = s"
  "get_feature (row d t s) F_streams_momentum = None"
  "get_feature (row d t s) F_streams_ma3 = None"
  "get_feature (row d t s) F_streams = Some s"
  by (simp_all add: row_def)

lemma fold_upd_map:
  "fold (\<lambda>t m. m(t \<mapsto> g t)) ts m0 = (\<lambda>k. if k \<in> set ts then Some (g k) else m0 k)"
  by (induction ts arbitrary: m0) (auto simp: fun_eq_iff)

lemma fit_params_apply:
  "fit_params L t = (if t \<in> set (selectedTracks L) then Some (track_params L t) else None)"
  by (simp add: fit_params_def fold_upd_map)

lemma track_params_apply:
  "track_params L t f =
     Some (feature_params (filter (\<lambda>d. track_id d = t \<and> date d \<in> trainingDates L) (data L)) f)"
  by (cases f) (simp_all add: track_params_def features_def Let_def)

lemma normalizationParams_normalizeFeatures:
  "normalizationParams (normalizeFeatures L) = fit_params L"
  by (simp add: normalizeFeatures_def Let_def)

lemma data_normalizeFeatures:
  "data (normalizeFeatures L) = map (normalize_entry (fit_params L)) (data L)"
  by (simp add: normalizeFeatures_def Let_def)

text \<open>
  The source keeps the dates in a \<open>Set\<close>. In the model the set is the list of its elements
  in insertion order, and that list is distinct in every state reached by loading files
  into a new loader.
\<close>

lemma distinct_set_add: "distinct s \<Longrightarrow> distinct (set_add x s)"
  by (simp add: set_add_def)

lemma parse_row_distinct_dates:
  "distinct (dates L) \<Longrightarrow> distinct (dates (parse_row pf c values L))"
  by (auto simp: parse_row_def push_entry_def distinct_set_add split: option.splits)

lemma parse_rows_distinct_dates:
  assumes "distinct (dates L)"
  shows "distinct (dates (parse_rows pf c rows L))"
proof -
  have "distinct (dates (fold (\<lambda>line. parse_row pf c (parseCSVLine line)) rows L'))"
    if "distinct (dates L')" for L'
    using that
  proof (induction rows arbitrary: L')
    case Nil
    then show ?case by simp
  next
    case (Cons r rows)
    show ?case
      unfolding fold_simps
      by (rule Cons.IH) (rule parse_row_distinct_dates [OF Cons.prems])
  qed
  from this [of "L\<lparr>data := []\<rparr>"] assms show ?thesis by (simp add: parse_rows_def)
qed

lemma dates_selectTopTracks [simp]: "dates (selectTopTracks n L) = dates L"
  by (simp add: selectTopTracks_def Let_def)

lemma dates_engineerFeatures: "engineerFeatures L = Inr L' \<Longrightarrow> dates L' = dates L"
  by (auto simp: engineerFeatures_def split: sum.splits)

lemma parseCSV_distinct_dates:
  assumes "distinct (dates L)" "parseCSV pf csvText L = Inr L'"
  shows "distinct (dates L')"
proof -
  from assms(2) obtain c rows where "engineerFeatures (selectTopTracks 10 (parse_rows pf c rows L)) = Inr L'"
    by (auto simp: parseCSV_def Let_def split: list.splits)
  then have "dates L' = dates (parse_rows pf c rows L)"
    by (simp add: dates_engineerFeatures)
  with assms(1) show ?thesis by (simp add: parse_rows_distinct_dates)
qed

section \<open>Normalizer: end points and fallbacks\<close>

text \<open>
  Claim C7. With \<open>max > min\<close> the minimum is normalized to \<open>0\<close> and the maximum to \<open>1\<close>;
  with \<open>max = min\<close> every value is normalized to \<open>0.5\<close>; a selected track with no
  training-period value of a feature gets the parameters \<open>{min: 0, max: 1}\<close> for it; and a
  row whose track has no parameters gets \<open>0.5\<close> in each of its five normalized fields.
\<close>

theorem minMaxNormalize_fallbacks:
  "(min_val mm < max_val mm \<longrightarrow>
      minMaxNormalize (min_val mm) (Some mm) = 0 \<and> minMaxNormalize (max_val mm) (Some mm) = 1)
   \<and> minMaxNormalize v (Some \<lparr>min_val = c, max_val = c\<rparr>) = 0.5
   \<and> (t \<in> set (selectedTracks L) \<and>
        (\<forall>d \<in> set (data L). track_id d = t \<and> date d \<in> trainingDates L \<longrightarrow> get_feature d f = None) \<longrightarrow>
        (\<exists>p. normalizationParams (normalizeFeatures L) t = Some p \<and>
             p f = Some \<lparr>min_val = 0, max_val = 1\<rparr>))
   \<and> (i < length (data L) \<and> normalizationParams (normalizeFeatures L) (track_id (data L ! i)) = None \<longrightarrow>
        streams_normalized (data (normalizeFeatures L) ! i) = Some 0.5 \<and>
        danceability_normalized (data (normalizeFeatures L) ! i) = Some 0.5 \<and>
        energy_normalized (data (normalizeFeatures L) ! i) = Some 0.5 \<and>
        streams_momentum_normalized (data (normalizeFeatures L) ! i) = Some 0.5 \<and>
        streams_ma3_normalized (data (normalizeFeatures L) ! i) = Some 0.5)"
proof (intro conjI impI)
  assume "min_val mm < max_val mm"
  then show "minMaxNormalize (min_val mm) (Some mm) = 0"
    and "minMaxNormalize (max_val mm) (Some mm) = 1"
    by (simp_all add: minMaxNormalize_def)
next
  show "minMaxNormalize v (Some \<lparr>min_val = c, max_val = c\<rparr>) = 0.5"
    by (simp add: minMaxNormalize_def)
next
  assume h: "t \<in> set (selectedTracks L) \<and>
    (\<forall>d \<in> set (data L). track_id d = t \<and> date d \<in> trainingDates L \<longrightarrow> get_feature d f = None)"
  let ?td = "filter (\<lambda>d. track_id d = t \<and> date d \<in> trainingDates L) (data L)"
  from h have "\<forall>d \<in> set ?td. get_feature d f = None" by simp
  then have "List.map_filter (\<lambda>d. get_feature d f) ?td = []"
    by (simp add: map_filter_def filter_empty_conv)
  then have "feature_params ?td f = \<lparr>min_val = 0, max_val = 1\<rparr>"
    by (simp add: feature_params_def)
  with h show "\<exists>p. normalizationParams (normalizeFeatures L) t = Some p \<and>
             p f = Some \<lparr>min_val = 0, max_val = 1\<rparr>"
    by (simp add: normalizationParams_normalizeFeatures fit_params_apply track_params_apply)
next
  assume h: "i < length (data L) \<and> normalizationParams (normalizeFeatures L) (track_id (data L ! i)) = None"
  then have e: "data (normalizeFeatures L) ! i =
      (data L ! i)\<lparr>streams_normalized := Some 0.5,
                  danceability_normalized := Some 0.5,
                  energy_normalized := Some 0.5,
                  streams_momentum_normalized := Some 0.5,
                  streams_ma3_normalized := Some 0.5\<rparr>"
    by (simp add: data_normalizeFeatures normalizationParams_normalizeFeatures normalize_entry_def)
  show "streams_normalized (data (normalizeFeatures L) ! i) = Some 0.5"
    and "danceability_normalized (data (normalizeFeatures L) ! i) = Some 0.5"
    and "energy_normalized (data (normalizeFeatures L) ! i) = Some 0.5"
    and "streams_momentum_normalized (data (normalizeFeatures L) ! i) = Some 0.5"
    and "streams_ma3_normalized (data (normalizeFeatures L) ! i) = Some 0.5"
    by (simp_all add: e)
qed

theorem minMaxNormalize_fallbacks_witness:
  "min_val \<lparr>min_val = 2, max_val = 6\<rparr> < max_val \<lparr>min_val = 2, max_val = 6\<rparr>
   \<and> minMaxNormalize 2 (Some \<lparr>min_val = 2, max_val = 6\<rparr>) = 0
   \<and> minMaxNormalize 6 (Some \<lparr>min_val = 2, max_val = 6\<rparr>) = 1
   \<and> ''A'' \<in> set (selectedTracks (loader_of [row ''D0'' ''A'' 1, row ''D0'' ''B'' 2] [''D0''] [''A'']))
   \<and> (\<exists>p. normalizationParams (normalizeFeatures (loader_of [row ''D0'' ''A'' 1, row ''D0'' ''B'' 2] [''D0''] [''A''])) ''A'' = Some p
          \<and> p F_streams = Some \<lparr>min_val = 0, max_val = 1\<rparr>)
   \<and> normalizationParams (normalizeFeatures (loader_of [row ''D0'' ''A'' 1, row ''D0'' ''B'' 2] [''D0''] [''A''])) ''B'' = None
   \<and> streams_normalized (data (normalizeFeatures (loader_of [row ''D0'' ''A'' 1, row ''D0'' ''B'' 2] [''D0''] [''A''])) ! 1) = Some 0.5"
  using minMaxNormalize_fallbacks [of "\<lparr>min_val = 2, max_val = 6\<rparr>" 2 2 "''A''"
      "loader_of [row ''D0'' ''A'' 1, row ''D0'' ''B'' 2] [''D0''] [''A'']" F_streams 1]
  by (simp add: normalizationParams_normalizeFeatures fit_params_apply trainingDates_def
        sortedDates_def splitIndex_def slice_def)

section \<open>Window builder: shapes, candidates and targets\<close>

lemma find_entry_None_iff:
  "find_entry ds (Some dt) t = None \<longleftrightarrow> \<not> spec_has_observation ds dt t"
  by (auto simp: find_entry_def spec_has_observation_def find_None_iff)

lemma find_entry_undefined [simp]: "find_entry ds None t = None"
  by (simp add: find_entry_def find_None_iff)

lemma find_map_normalize:
  "List.find (\<lambda>d. Some (date d) = dt \<and> track_id d = t) (map (normalize_entry np) ds)
     = map_option (normalize_entry np) (List.find (\<lambda>d. Some (date d) = dt \<and> track_id d = t) ds)"
  by (induction ds) (auto simp: normalize_entry_def split: option.splits)

lemma normalize_entry_keeps [simp]:
  "date (normalize_entry np e) = date e"
  "track_id (normalize_entry np e) = track_id e"
  "streams (normalize_entry np e) = streams e"
  by (simp_all add: normalize_entry_def split: option.splits)

lemma find_entry_normalized:
  "find_entry (map (normalize_entry np) ds) dt t = map_option (normalize_entry np) (find_entry ds dt t)"
  by (simp add: find_entry_def find_map_normalize)

lemma has_observation_normalized [simp]:
  "spec_has_observation (map (normalize_entry np) ds) dt t = spec_has_observation ds dt t"
  by (auto simp: spec_has_observation_def)

lemma normalizeFeatures_keeps [simp]:
  "selectedTracks (normalizeFeatures L) = selectedTracks L"
  "dates (normalizeFeatures L) = dates L"
  "sortedDates (normalizeFeatures L) = sortedDates L"
  "trackMetadata (normalizeFeatures L) = trackMetadata L"
  by (simp_all add: normalizeFeatures_def Let_def sortedDates_def)

lemma length_track_features [simp]: "length (track_features ds dt t) = 5"
  by (simp add: track_features_def split: option.splits)

lemma length_concat_uniform:
  "(\<forall>x \<in> set xss. length x = n) \<Longrightarrow> length (concat xss) = n * length xss"
  by (induction xss) simp_all

lemma nth_concat_uniform:
  "(\<forall>x \<in> set xss. length x = n) \<Longrightarrow> j < length xss \<Longrightarrow> c < n \<Longrightarrow>
     concat xss ! (n * j + c) = xss ! j ! c"
proof (induction xss arbitrary: j)
  case Nil
  then show ?case by simp
next
  case (Cons x xss)
  show ?case
  proof (cases j)
    case 0
    with Cons.prems show ?thesis by (simp add: nth_append)
  next
    case (Suc j')
    with Cons.prems have "concat xss ! (n * j' + c) = xss ! j' ! c"
      by (intro Cons.IH) simp_all
    moreover have "n * j + c = length x + (n * j' + c)"
      using Cons.prems Suc by simp
    ultimately show ?thesis using Suc by (simp add: nth_append)
  qed
qed

lemma length_dayFeatures [simp]: "length (dayFeatures L dt) = 5 * length (selectedTracks L)"
  by (simp add: dayFeatures_def length_concat_uniform [where n = 5])

lemma dayFeatures_block:
  assumes "j < length (selectedTracks L)" "c < 5"
  shows "dayFeatures L dt ! (5 * j + c) = track_features (data L) dt (selectedTracks L ! j) ! c"
  using assms by (simp add: dayFeatures_def nth_concat_uniform [where n = 5])

lemma createSample_eq [simp]: "createSample L wd = Some (map (dayFeatures L) wd)"
  by (simp add: createSample_def)

lemma target_offsets_eq:
  "target_offsets ds sd idx t cur os =
     (if \<forall>off \<in> set os. find_entry ds (js_index sd (idx + int off)) t \<noteq> None
      then Some (map (\<lambda>off. if streams (the (find_entry ds (js_index sd (idx + int off)) t)) > cur then 1 else 0) os)
      else None)"
  by (induction os) (auto split: option.splits)

lemma target_tracks_eq:
  "target_tracks ds sd d idx ts =
     (if \<forall>t \<in> set ts. find_entry ds (Some d) t \<noteq> None \<and>
           (\<forall>off \<in> {1, 2, 3}. find_entry ds (js_index sd (idx + int off)) t \<noteq> None)
      then Some (concat (map (\<lambda>t. map (\<lambda>off. if streams (the (find_entry ds (js_index sd (idx + int off)) t))
                                              > streams (the (find_entry ds (Some d) t)) then 1 else 0)
                                    [1, 2, 3]) ts))
      else None)"
proof (induction ts)
  case Nil
  then show ?case by simp
next
  case (Cons t ts)
  show ?case
    unfolding target_tracks.simps Cons.IH target_offsets_eq
    by (auto split: option.splits)
qed

lemma indexOf_nth:
  "distinct xs \<Longrightarrow> i < length xs \<Longrightarrow> indexOf xs (xs ! i) = int i"
proof (induction xs arbitrary: i)
  case Nil
  then show ?case by simp
next
  case (Cons x xs)
  show ?case
  proof (cases i)
    case 0
    then show ?thesis by simp
  next
    case (Suc i')
    with Cons.prems have "x \<noteq> xs ! i'" by auto
    moreover from Cons.prems Suc have "indexOf xs (xs ! i') = int i'"
      by (intro Cons.IH) simp_all
    ultimately show ?thesis using Suc by (simp add: Let_def)
  qed
qed

lemma js_index_nat: "js_index xs (int i) = (if i < length xs then Some (xs ! i) else None)"
  by (simp add: js_index_def)


lemma in_candidates: "i \<in> set (candidates n) \<longleftrightarrow> windowSize \<le> i \<and> int i \<le> int n - 3 - 1"
  by (auto simp: candidates_def)

lemma sortedDates_facts:
  "length (sortedDates L) = length (dates L)"
  "distinct (sortedDates L) = distinct (dates L)"
  "set (sortedDates L) = set (dates L)"
  "sorted (sortedDates L)"
  by (simp_all add: sortedDates_def)

lemma createTarget_eq:
  assumes "distinct (dates L)" "i + 3 < length (sortedDates L)"
  shows "createTarget L (sortedDates L ! i) = (if spec_accepted L i then Some (spec_target L i) else None)"
proof -
  let ?sd = "sortedDates L"
  have idx: "indexOf ?sd (?sd ! i) = int i"
    using assms by (intro indexOf_nth) (simp_all add: sortedDates_facts)
  have fut: "js_index ?sd (int i + int off) = Some (?sd ! (i + off))" if "off \<in> {1, 2, 3}" for off
    using that assms(2) js_index_nat [of ?sd "i + off"] by auto
  have acc: "spec_accepted L i \<longleftrightarrow>
      (\<forall>t \<in> set (selectedTracks L). find_entry (data L) (Some (?sd ! i)) t \<noteq> None \<and>
         (\<forall>off \<in> {1, 2, 3}. find_entry (data L) (js_index ?sd (int i + int off)) t \<noteq> None))"
    using fut by (auto simp: spec_accepted_def find_entry_None_iff)
  have f1: "js_index ?sd (int i + 1) = Some (?sd ! Suc i)"
    and f2: "js_index ?sd (int i + 2) = Some (?sd ! Suc (Suc i))"
    and f3: "js_index ?sd (int i + 3) = Some (?sd ! (i + 3))"
    using fut [of 1] fut [of 2] fut [of 3] by simp_all
  show ?thesis
    unfolding createTarget_def Let_def idx target_tracks_eq acc [symmetric]
    by (simp add: f1 f2 f3 spec_target_def spec_label_def)
qed

lemma length_spec_target [simp]: "length (spec_target L i) = 3 * length (selectedTracks L)"
  by (simp add: spec_target_def length_concat_uniform [where n = 3])

lemma nth_spec_target:
  assumes "j < length (selectedTracks L)" "k < 3"
  shows "spec_target L i ! (3 * j + k) = spec_label L i (selectedTracks L ! j) (k + 1)"
proof -
  from assms(2) have "k \<in> {0, 1, 2}" by auto
  then have "map (spec_label L i (selectedTracks L ! j)) [1, 2, 3] ! k
      = spec_label L i (selectedTracks L ! j) (k + 1)"
    by (auto simp: numeral_2_eq_2 numeral_3_eq_3)
  with assms show ?thesis
    by (simp add: spec_target_def nth_concat_uniform [where n = 3])
qed

lemma window_at_eq:
  assumes "distinct (dates L)" "i + 3 < length (sortedDates L)"
  shows "window_at L (sortedDates L) i =
     (if spec_accepted L i
      then Some (map (dayFeatures L) (slice (sortedDates L) (i - windowSize) i), spec_target L i)
      else None)"
  unfolding window_at_def createSample_eq createTarget_eq [OF assms]
  by simp

lemma candidates_range: "i \<in> set (candidates n) \<Longrightarrow> i + 3 < n"
  by (auto simp: candidates_def)

lemma windows_eq:
  assumes "distinct (dates L)"
  shows "List.map_filter (window_at L (sortedDates L)) (candidates (length (sortedDates L)))
     = map (\<lambda>i. (map (dayFeatures L) (slice (sortedDates L) (i - windowSize) i), spec_target L i))
         (spec_accepted_indices L)"
proof -
  let ?c = "candidates (length (sortedDates L))"
  have w: "window_at L (sortedDates L) i =
     (if spec_accepted L i
      then Some (map (dayFeatures L) (slice (sortedDates L) (i - windowSize) i), spec_target L i)
      else None)" if "i \<in> set ?c" for i
    using that assms by (intro window_at_eq candidates_range)
  have "filter (\<lambda>i. window_at L (sortedDates L) i \<noteq> None) ?c = filter (spec_accepted L) ?c"
    by (rule filter_cong) (simp_all add: w)
  then show ?thesis
    unfolding map_filter_def spec_accepted_indices_def
    by (simp add: w)
qed

lemma spec_accepted_normalized [simp]:
  "spec_accepted (normalizeFeatures L) = spec_accepted L"
  by (rule ext) (simp add: spec_accepted_def data_normalizeFeatures)

lemma spec_accepted_indices_normalized [simp]:
  "spec_accepted_indices (normalizeFeatures L) = spec_accepted_indices L"
  by (simp add: spec_accepted_indices_def)

lemma the_find_entry_normalized:
  "spec_has_observation ds dt t \<Longrightarrow>
     streams (the (find_entry (map (normalize_entry np) ds) (Some dt) t))
       = streams (the (find_entry ds (Some dt) t))"
  using find_entry_None_iff [of ds dt t] by (auto simp: find_entry_normalized)

lemma spec_label_normalized:
  assumes "spec_has_observation (data L) (sortedDates L ! (i + off)) t"
    and "spec_has_observation (data L) (sortedDates L ! i) t"
  shows "spec_label (normalizeFeatures L) i t off = spec_label L i t off"
  using assms by (simp add: spec_label_def data_normalizeFeatures the_find_entry_normalized)

lemma spec_target_normalized:
  assumes "spec_accepted L i"
  shows "spec_target (normalizeFeatures L) i = spec_target L i"
proof -
  have "spec_label (normalizeFeatures L) i t off = spec_label L i t off"
    if "t \<in> set (selectedTracks L)" "off \<in> {1, 2, 3}" for t off
    using that assms spec_label_normalized [of L i off t]
    by (auto simp: spec_accepted_def)
  then have "map (\<lambda>t. map (spec_label (normalizeFeatures L) i t) [1, 2, 3]) (selectedTracks L)
      = map (\<lambda>t. map (spec_label L i t) [1, 2, 3]) (selectedTracks L)"
    by (intro map_cong) simp_all
  then show ?thesis
    by (simp only: spec_target_def normalizeFeatures_keeps)
qed

lemma set_map_filter: "set (List.map_filter f xs) = {y. \<exists>x \<in> set xs. f x = Some y}"
  by (induction xs) (auto simp: map_filter_simps split: option.splits)

lemma createSlidingWindows_eq:
  "createSlidingWindows L0 =
     (normalizeFeatures L0,
      map fst (List.map_filter (window_at (normalizeFeatures L0) (sortedDates L0)) (candidates (length (sortedDates L0)))),
      map snd (List.map_filter (window_at (normalizeFeatures L0) (sortedDates L0)) (candidates (length (sortedDates L0)))))"
  by (simp add: createSlidingWindows_def Let_def)

lemma length_window_slice:
  "i \<in> set (candidates (length sd)) \<Longrightarrow> length (slice sd (i - windowSize) i) = windowSize"
  by (auto simp: candidates_def slice_def)

lemma window_at_Some:
  assumes "window_at L sd i = Some (s, t)"
  shows "s = map (dayFeatures L) (slice sd (i - windowSize) i) \<and> length t = 3 * length (selectedTracks L)"
  using assms by (auto simp: window_at_def split: option.splits if_splits)

lemma track_features_missing:
  "\<not> spec_has_observation ds dt t \<Longrightarrow> track_features ds dt t = [0, 0, 0, 0, 0]"
  using find_entry_None_iff [of ds dt t] by (simp add: track_features_def)

lemma createSlidingWindows_spec:
  assumes "distinct (dates L0)" "createSlidingWindows L0 = (L, samples, targets)"
  shows "L = normalizeFeatures L0"
    and "samples = map (\<lambda>i. map (dayFeatures L) (slice (sortedDates L0) (i - windowSize) i)) (spec_accepted_indices L0)"
    and "targets = map (spec_target L0) (spec_accepted_indices L0)"
proof -
  from assms(2) show L: "L = normalizeFeatures L0"
    by (simp add: createSlidingWindows_eq)
  have d: "distinct (dates L)" using assms(1) by (simp add: L)
  note w = windows_eq [OF d, unfolded L, simplified]
  from assms(2) show "samples = map (\<lambda>i. map (dayFeatures L) (slice (sortedDates L0) (i - windowSize) i)) (spec_accepted_indices L0)"
    by (simp add: createSlidingWindows_eq w comp_def L)
  have "map (spec_target (normalizeFeatures L0)) (spec_accepted_indices L0)
      = map (spec_target L0) (spec_accepted_indices L0)"
    by (rule map_cong) (simp_all add: spec_target_normalized spec_accepted_indices_def)
  with assms(2) show "targets = map (spec_target L0) (spec_accepted_indices L0)"
    by (simp add: createSlidingWindows_eq w comp_def)
qed

lemma sorted_example [simp]: "sortedDates example_loader = eleven_dates"
  by (simp add: sortedDates_def example_loader_def eleven_dates_def)

lemma example_windows:
  "createSlidingWindows example_loader =
     (normalizeFeatures example_loader,
      [[[0, 0, 0, 0, 0, 0, 0, 0, 0, 0], [0, 0, 0, 0, 0, 0, 0, 0, 0, 0],
        [0, 0, 0, 0, 0, 0, 0, 0, 0, 0], [0, 0, 0, 0, 0, 0, 0, 0, 0, 0],
        [0, 0, 0, 0, 0, 0, 0, 0, 0, 0], [0, 0, 0, 0, 0, 0, 0, 0, 0, 0],
        [0, 0, 0, 0, 0, 0, 0, 0, 0, 0]]],
      [[1, 0, 0, 0, 1, 0]])"
  unfolding createSlidingWindows_eq
  apply (simp add: candidates_def windowSize_def map_filter_simps)
  apply (simp add: window_at_def createTarget_def eleven_dates_def slice_def windowSize_def)
  apply (simp add: data_normalizeFeatures example_loader_def example_rows_def find_entry_normalized
        find_entry_def js_index_def dayFeatures_def track_features_def eleven_dates_def)
  done

lemma sorted_example_gap [simp]: "sortedDates example_loader_gap = eleven_dates"
  by (simp add: sortedDates_def example_loader_gap_def eleven_dates_def)

lemma example_gap_windows:
  "createSlidingWindows example_loader_gap = (normalizeFeatures example_loader_gap, [], [])"
  unfolding createSlidingWindows_eq
  apply (simp add: candidates_def windowSize_def map_filter_simps)
  apply (simp add: window_at_def createTarget_def eleven_dates_def slice_def windowSize_def)
  apply (simp add: data_normalizeFeatures example_loader_gap_def example_rows_def find_entry_normalized
        find_entry_def js_index_def eleven_dates_def)
  done

lemma example_distinct: "distinct (dates example_loader)" "length (dates example_loader) = 11"
  "distinct (dates example_loader_gap)" "length (dates example_loader_gap) = 11"
  by (simp_all add: example_loader_def example_loader_gap_def eleven_dates_def)

lemma example_accepted: "spec_accepted example_loader 7"
  by (simp add: spec_accepted_def spec_has_observation_def eleven_dates_def)
     (simp add: example_loader_def example_rows_def)

lemma example_gap_missing:
  "\<not> spec_has_observation (data example_loader_gap) (sortedDates example_loader_gap ! (7 + 2)) ''B''"
  by (simp add: spec_has_observation_def eleven_dates_def)
     (simp add: example_loader_gap_def example_rows_def)

lemma example_gap_rejected: "\<not> spec_accepted example_loader_gap 7"
  using example_gap_missing
  by (auto simp: spec_accepted_def example_loader_gap_def)


text \<open>
  Claim C1. Every sample of the window builder has \<open>windowSize = 7\<close> rows of
  \<open>5 \<times> |selectedTracks|\<close> entries, and the target paired with it has
  \<open>3 \<times> |selectedTracks|\<close> entries. Each sample is the list of day vectors of the seven
  dates before a candidate date, whatever observations are missing: the five entries of a
  track without an observation at a date are \<open>0\<close> in that date's vector.
\<close>

theorem window_shapes:
  "createSlidingWindows L0 = (L, samples, targets) \<longrightarrow>
     length samples = length targets
   \<and> (\<forall>n < length samples.
        length (samples ! n) = windowSize
      \<and> (\<forall>day \<in> set (samples ! n). length day = 5 * length (selectedTracks L))
      \<and> length (targets ! n) = 3 * length (selectedTracks L)
      \<and> (\<exists>i \<in> set (candidates (length (sortedDates L))).
            samples ! n = map (dayFeatures L) (slice (sortedDates L) (i - windowSize) i)))
   \<and> (\<forall>dt j c. j < length (selectedTracks L) \<and> c < 5 \<and>
          \<not> spec_has_observation (data L) dt (selectedTracks L ! j) \<longrightarrow>
          dayFeatures L dt ! (5 * j + c) = 0)"
proof
  assume h: "createSlidingWindows L0 = (L, samples, targets)"
  define ws where "ws = List.map_filter (window_at L (sortedDates L)) (candidates (length (sortedDates L)))"
  from h have L: "L = normalizeFeatures L0"
    by (simp add: createSlidingWindows_eq)
  from h have s: "samples = map fst ws" and t: "targets = map snd ws"
    unfolding ws_def L by (auto simp: createSlidingWindows_eq)
  have len: "length samples = length targets" by (simp add: s t)
  have shapes: "length (samples ! n) = windowSize
      \<and> (\<forall>day \<in> set (samples ! n). length day = 5 * length (selectedTracks L))
      \<and> length (targets ! n) = 3 * length (selectedTracks L)
      \<and> (\<exists>i \<in> set (candidates (length (sortedDates L))).
            samples ! n = map (dayFeatures L) (slice (sortedDates L) (i - windowSize) i))"
    if n: "n < length samples" for n
  proof -
    from n have "ws ! n \<in> set ws" by (simp add: s)
    then obtain i where i: "i \<in> set (candidates (length (sortedDates L)))"
      and w: "window_at L (sortedDates L) i = Some (ws ! n)"
      by (auto simp: ws_def set_map_filter)
    from w have w': "window_at L (sortedDates L) i = Some (samples ! n, targets ! n)"
      using n by (simp add: s t)
    note sh = window_at_Some [OF w']
    have "length (samples ! n) = windowSize"
      using sh i by (simp add: length_window_slice)
    moreover have "\<forall>day \<in> set (samples ! n). length day = 5 * length (selectedTracks L)"
      using sh by auto
    moreover have "length (targets ! n) = 3 * length (selectedTracks L)"
      using sh by simp
    moreover have "\<exists>i \<in> set (candidates (length (sortedDates L))).
            samples ! n = map (dayFeatures L) (slice (sortedDates L) (i - windowSize) i)"
      using sh i by blast
    ultimately show ?thesis by blast
  qed
  have zero: "dayFeatures L dt ! (5 * j + c) = 0"
    if a: "j < length (selectedTracks L) \<and> c < 5 \<and>
          \<not> spec_has_observation (data L) dt (selectedTracks L ! j)" for dt j c
  proof -
    from a have "c \<in> {0, 1, 2, 3, 4}" by auto
    then have "[0, 0, 0, 0, 0 :: real] ! c = 0" by auto
    with a show ?thesis
      by (simp add: dayFeatures_block track_features_missing)
  qed
  from len shapes zero
  show "length samples = length targets
   \<and> (\<forall>n < length samples.
        length (samples ! n) = windowSize
      \<and> (\<forall>day \<in> set (samples ! n). length day = 5 * length (selectedTracks L))
      \<and> length (targets ! n) = 3 * length (selectedTracks L)
      \<and> (\<exists>i \<in> set (candidates (length (sortedDates L))).
            samples ! n = map (dayFeatures L) (slice (sortedDates L) (i - windowSize) i)))
   \<and> (\<forall>dt j c. j < length (selectedTracks L) \<and> c < 5 \<and>
          \<not> spec_has_observation (data L) dt (selectedTracks L ! j) \<longrightarrow>
          dayFeatures L dt ! (5 * j + c) = 0)"
    by blast
qed


theorem window_shapes_witness:
  "createSlidingWindows example_loader =
     (normalizeFeatures example_loader,
      [[[0, 0, 0, 0, 0, 0, 0, 0, 0, 0], [0, 0, 0, 0, 0, 0, 0, 0, 0, 0],
        [0, 0, 0, 0, 0, 0, 0, 0, 0, 0], [0, 0, 0, 0, 0, 0, 0, 0, 0, 0],
        [0, 0, 0, 0, 0, 0, 0, 0, 0, 0], [0, 0, 0, 0, 0, 0, 0, 0, 0, 0],
        [0, 0, 0, 0, 0, 0, 0, 0, 0, 0]]],
      [[1, 0, 0, 0, 1, 0]])
   \<and> windowSize = 7
   \<and> 5 * length (selectedTracks (normalizeFeatures example_loader)) = 10
   \<and> 3 * length (selectedTracks (normalizeFeatures example_loader)) = 6
   \<and> \<not> spec_has_observation (data (normalizeFeatures example_loader)) ''D00'' (selectedTracks (normalizeFeatures example_loader) ! 1)
   \<and> dayFeatures (normalizeFeatures example_loader) ''D00'' ! (5 * 1 + 2) = 0"
proof -
  note r = window_shapes [THEN mp, OF example_windows]
  have sel: "selectedTracks example_loader = [''A'', ''B'']"
    by (simp add: example_loader_def)
  have m: "\<not> spec_has_observation (data (normalizeFeatures example_loader)) ''D00''
             (selectedTracks (normalizeFeatures example_loader) ! 1)"
    by (simp add: sel data_normalizeFeatures)
       (simp add: spec_has_observation_def example_loader_def example_rows_def)
  from r have z: "\<forall>dt j c. j < length (selectedTracks (normalizeFeatures example_loader)) \<and> c < 5 \<and>
          \<not> spec_has_observation (data (normalizeFeatures example_loader)) dt
               (selectedTracks (normalizeFeatures example_loader) ! j) \<longrightarrow>
          dayFeatures (normalizeFeatures example_loader) dt ! (5 * j + c) = 0"
    by blast
  have "dayFeatures (normalizeFeatures example_loader) ''D00'' ! (5 * 1 + 2) = 0"
    by (rule z [rule_format]) (use m in \<open>simp add: sel\<close>)
  with m show ?thesis
    by (simp add: example_windows windowSize_def sel)
qed


text \<open>
  Claim C2. The candidate indices run from \<open>windowSize\<close> to \<open>length - 3 - 1\<close> inclusive
  over the sorted list of the distinct dates, and a candidate yields a sample exactly when
  every selected track has an observation at the candidate date and at the three dates
  after it. With eleven dates the only candidate is index \<open>7\<close>: there is one sample when
  all those observations exist, and none when one of the future observations of a track
  is missing.
\<close>

theorem window_candidates:
  "(i \<in> set (candidates n) \<longleftrightarrow> windowSize \<le> i \<and> int i \<le> int n - 3 - 1)
   \<and> (distinct (dates L0) \<and> createSlidingWindows L0 = (L, samples, targets) \<longrightarrow>
        length samples = length (spec_accepted_indices L0)
      \<and> length targets = length (spec_accepted_indices L0)
      \<and> (\<forall>i \<in> set (candidates (length (sortedDates L0))).
            window_at L (sortedDates L) i \<noteq> None \<longleftrightarrow> spec_accepted L0 i)
      \<and> (length (dates L0) = 11 \<longrightarrow>
            candidates (length (sortedDates L0)) = [7]
          \<and> length samples = (if spec_accepted L0 7 then 1 else 0)
          \<and> (\<forall>t \<in> set (selectedTracks L0). \<forall>k \<in> {1, 2, 3}.
                \<not> spec_has_observation (data L0) (sortedDates L0 ! (7 + k)) t \<longrightarrow> samples = [])))"
proof (rule conjI)
  show "i \<in> set (candidates n) \<longleftrightarrow> windowSize \<le> i \<and> int i \<le> int n - 3 - 1"
    by (rule in_candidates)
next
  show "distinct (dates L0) \<and> createSlidingWindows L0 = (L, samples, targets) \<longrightarrow>
        length samples = length (spec_accepted_indices L0)
      \<and> length targets = length (spec_accepted_indices L0)
      \<and> (\<forall>i \<in> set (candidates (length (sortedDates L0))).
            window_at L (sortedDates L) i \<noteq> None \<longleftrightarrow> spec_accepted L0 i)
      \<and> (length (dates L0) = 11 \<longrightarrow>
            candidates (length (sortedDates L0)) = [7]
          \<and> length samples = (if spec_accepted L0 7 then 1 else 0)
          \<and> (\<forall>t \<in> set (selectedTracks L0). \<forall>k \<in> {1, 2, 3}.
                \<not> spec_has_observation (data L0) (sortedDates L0 ! (7 + k)) t \<longrightarrow> samples = []))"
  proof
    assume h: "distinct (dates L0) \<and> createSlidingWindows L0 = (L, samples, targets)"
    then have d: "distinct (dates L0)" and c: "createSlidingWindows L0 = (L, samples, targets)"
      by simp_all
    note sp = createSlidingWindows_spec [OF d c]
    have dL: "distinct (dates L)" using d by (simp add: sp(1))
    have ls: "length samples = length (spec_accepted_indices L0)"
      and lt: "length targets = length (spec_accepted_indices L0)"
      by (simp_all add: sp(2) sp(3))
    have acc: "window_at L (sortedDates L) i \<noteq> None \<longleftrightarrow> spec_accepted L0 i"
      if "i \<in> set (candidates (length (sortedDates L0)))" for i
    proof -
      from that have "i + 3 < length (sortedDates L)"
        by (simp add: sp(1) candidates_range)
      from window_at_eq [OF dL this] show ?thesis
        by (simp add: sp(1))
    qed
    have eleven: "candidates (length (sortedDates L0)) = [7]
          \<and> length samples = (if spec_accepted L0 7 then 1 else 0)
          \<and> (\<forall>t \<in> set (selectedTracks L0). \<forall>k \<in> {1, 2, 3}.
                \<not> spec_has_observation (data L0) (sortedDates L0 ! (7 + k)) t \<longrightarrow> samples = [])"
      if n: "length (dates L0) = 11"
    proof -
      have cs: "candidates (length (sortedDates L0)) = [7]"
        by (simp add: sortedDates_facts n candidates_def windowSize_def upt_rec)
      then have one: "length samples = (if spec_accepted L0 7 then 1 else 0)"
        by (simp add: ls spec_accepted_indices_def)
      have "samples = []"
        if "t \<in> set (selectedTracks L0)" "k \<in> {1, 2, 3}"
          "\<not> spec_has_observation (data L0) (sortedDates L0 ! (7 + k)) t" for t k
      proof -
        from that have "\<not> spec_accepted L0 7"
          unfolding spec_accepted_def by blast
        with one show ?thesis by simp
      qed
      with cs one show ?thesis by blast
    qed
    from ls lt acc eleven
    show "length samples = length (spec_accepted_indices L0)
      \<and> length targets = length (spec_accepted_indices L0)
      \<and> (\<forall>i \<in> set (candidates (length (sortedDates L0))).
            window_at L (sortedDates L) i \<noteq> None \<longleftrightarrow> spec_accepted L0 i)
      \<and> (length (dates L0) = 11 \<longrightarrow>
            candidates (length (sortedDates L0)) = [7]
          \<and> length samples = (if spec_accepted L0 7 then 1 else 0)
          \<and> (\<forall>t \<in> set (selectedTracks L0). \<forall>k \<in> {1, 2, 3}.
                \<not> spec_has_observation (data L0) (sortedDates L0 ! (7 + k)) t \<longrightarrow> samples = []))"
      by blast
  qed
qed


theorem window_candidates_witness:
  "distinct (dates example_loader) \<and> length (dates example_loader) = 11
   \<and> createSlidingWindows example_loader =
     (normalizeFeatures example_loader,
      [[[0, 0, 0, 0, 0, 0, 0, 0, 0, 0], [0, 0, 0, 0, 0, 0, 0, 0, 0, 0],
        [0, 0, 0, 0, 0, 0, 0, 0, 0, 0], [0, 0, 0, 0, 0, 0, 0, 0, 0, 0],
        [0, 0, 0, 0, 0, 0, 0, 0, 0, 0], [0, 0, 0, 0, 0, 0, 0, 0, 0, 0],
        [0, 0, 0, 0, 0, 0, 0, 0, 0, 0]]],
      [[1, 0, 0, 0, 1, 0]])
   \<and> spec_accepted example_loader 7
   \<and> spec_accepted_indices example_loader = [7]
   \<and> distinct (dates example_loader_gap) \<and> length (dates example_loader_gap) = 11
   \<and> ''B'' \<in> set (selectedTracks example_loader_gap)
   \<and> \<not> spec_has_observation (data example_loader_gap) (sortedDates example_loader_gap ! (7 + 2)) ''B''
   \<and> createSlidingWindows example_loader_gap = (normalizeFeatures example_loader_gap, [], [])"
proof -
  have "distinct (dates example_loader) \<and> createSlidingWindows example_loader =
     (normalizeFeatures example_loader,
      [[[0, 0, 0, 0, 0, 0, 0, 0, 0, 0], [0, 0, 0, 0, 0, 0, 0, 0, 0, 0],
        [0, 0, 0, 0, 0, 0, 0, 0, 0, 0], [0, 0, 0, 0, 0, 0, 0, 0, 0, 0],
        [0, 0, 0, 0, 0, 0, 0, 0, 0, 0], [0, 0, 0, 0, 0, 0, 0, 0, 0, 0],
        [0, 0, 0, 0, 0, 0, 0, 0, 0, 0]]],
      [[1, 0, 0, 0, 1, 0]])"
    by (simp add: example_distinct example_windows)
  note r = window_candidates [THEN conjunct2, THEN mp, OF this]
  from r have c: "candidates (length (sortedDates example_loader)) = [7]"
    by (simp add: example_distinct)
  from r have "length (spec_accepted_indices example_loader) = 1"
    by simp
  then have i: "spec_accepted_indices example_loader = [7]"
    unfolding spec_accepted_indices_def c by (simp split: if_splits)
  then have a: "spec_accepted example_loader 7"
    unfolding spec_accepted_indices_def c by (simp split: if_splits)
  have "distinct (dates example_loader_gap) \<and> createSlidingWindows example_loader_gap =
     (normalizeFeatures example_loader_gap, [], [])"
    by (simp add: example_distinct example_gap_windows)
  note g = window_candidates [THEN conjunct2, THEN mp, OF this]
  have s: "''B'' \<in> set (selectedTracks example_loader_gap)"
    by (simp add: example_loader_gap_def)
  from i a s show ?thesis
    by (simp add: example_distinct example_windows example_gap_windows example_gap_missing [simplified])
qed


text \<open>
  Claim C4. The target of the \<open>n\<close>-th accepted window holds, at position
  \<open>3 \<times> j + k\<close>, the label of the \<open>j\<close>-th selected track at offset \<open>k + 1\<close>: \<open>1\<close> if the
  streams at the future date strictly exceed those at the candidate date, \<open>0\<close> otherwise.
  A candidate with a missing current or future observation of a track gives no window.
\<close>

theorem target_labels:
  "distinct (dates L0) \<and> createSlidingWindows L0 = (L, samples, targets) \<longrightarrow>
     length targets = length (spec_accepted_indices L0)
   \<and> (\<forall>n < length targets. \<forall>j < length (selectedTracks L0). \<forall>k < 3.
        targets ! n ! (3 * j + k)
          = spec_label L0 (spec_accepted_indices L0 ! n) (selectedTracks L0 ! j) (k + 1))
   \<and> (\<forall>i \<in> set (candidates (length (sortedDates L0))).
         \<not> spec_accepted L0 i \<longrightarrow> window_at L (sortedDates L) i = None)"
proof
  assume h: "distinct (dates L0) \<and> createSlidingWindows L0 = (L, samples, targets)"
  then have d: "distinct (dates L0)" and c: "createSlidingWindows L0 = (L, samples, targets)"
    by simp_all
  note sp = createSlidingWindows_spec [OF d c]
  have dL: "distinct (dates L)" using d by (simp add: sp(1))
  have lt: "length targets = length (spec_accepted_indices L0)"
    by (simp add: sp(3))
  have lab: "targets ! n ! (3 * j + k)
          = spec_label L0 (spec_accepted_indices L0 ! n) (selectedTracks L0 ! j) (k + 1)"
    if "n < length targets" "j < length (selectedTracks L0)" "k < 3" for n j k
    using that by (simp add: sp(3) nth_spec_target)
  have rej: "window_at L (sortedDates L) i = None"
    if "i \<in> set (candidates (length (sortedDates L0)))" "\<not> spec_accepted L0 i" for i
  proof -
    from that have "i + 3 < length (sortedDates L)"
      by (simp add: sp(1) candidates_range)
    from window_at_eq [OF dL this] that(2) show ?thesis
      by (simp add: sp(1))
  qed
  from lt lab rej
  show "length targets = length (spec_accepted_indices L0)
   \<and> (\<forall>n < length targets. \<forall>j < length (selectedTracks L0). \<forall>k < 3.
        targets ! n ! (3 * j + k)
          = spec_label L0 (spec_accepted_indices L0 ! n) (selectedTracks L0 ! j) (k + 1))
   \<and> (\<forall>i \<in> set (candidates (length (sortedDates L0))).
         \<not> spec_accepted L0 i \<longrightarrow> window_at L (sortedDates L) i = None)"
    by blast
qed



theorem target_labels_witness:
  "distinct (dates example_loader)
   \<and> createSlidingWindows example_loader =
     (normalizeFeatures example_loader,
      [[[0, 0, 0, 0, 0, 0, 0, 0, 0, 0], [0, 0, 0, 0, 0, 0, 0, 0, 0, 0],
        [0, 0, 0, 0, 0, 0, 0, 0, 0, 0], [0, 0, 0, 0, 0, 0, 0, 0, 0, 0],
        [0, 0, 0, 0, 0, 0, 0, 0, 0, 0], [0, 0, 0, 0, 0, 0, 0, 0, 0, 0],
        [0, 0, 0, 0, 0, 0, 0, 0, 0, 0]]],
      [[1, 0, 0, 0, 1, 0]])
   \<and> spec_label example_loader (spec_accepted_indices example_loader ! 0) (selectedTracks example_loader ! 1) (1 + 1) = 1
   \<and> spec_label example_loader (spec_accepted_indices example_loader ! 0) (selectedTracks example_loader ! 0) (1 + 1) = 0
   \<and> 7 \<in> set (candidates (length (sortedDates example_loader_gap)))
   \<and> \<not> spec_accepted example_loader_gap 7
   \<and> window_at (normalizeFeatures example_loader_gap) (sortedDates (normalizeFeatures example_loader_gap)) 7 = None"
proof -
  have "distinct (dates example_loader) \<and> createSlidingWindows example_loader =
     (normalizeFeatures example_loader,
      [[[0, 0, 0, 0, 0, 0, 0, 0, 0, 0], [0, 0, 0, 0, 0, 0, 0, 0, 0, 0],
        [0, 0, 0, 0, 0, 0, 0, 0, 0, 0], [0, 0, 0, 0, 0, 0, 0, 0, 0, 0],
        [0, 0, 0, 0, 0, 0, 0, 0, 0, 0], [0, 0, 0, 0, 0, 0, 0, 0, 0, 0],
        [0, 0, 0, 0, 0, 0, 0, 0, 0, 0]]],
      [[1, 0, 0, 0, 1, 0]])"
    by (simp add: example_distinct example_windows)
  note r = target_labels [THEN mp, OF this]
  have sel: "selectedTracks example_loader = [''A'', ''B'']"
    by (simp add: example_loader_def)
  from r have lab: "\<forall>n < length [[1, 0, 0, 0, 1, 0 :: real]]. \<forall>j < length (selectedTracks example_loader). \<forall>k < 3.
        [[1, 0, 0, 0, 1, 0]] ! n ! (3 * j + k)
          = spec_label example_loader (spec_accepted_indices example_loader ! n) (selectedTracks example_loader ! j) (k + 1)"
    by blast
  from lab [rule_format, of 0 1 1]
  have l1: "spec_label example_loader (spec_accepted_indices example_loader ! 0) (selectedTracks example_loader ! 1) (1 + 1) = 1"
    by (simp add: sel)
  from lab [rule_format, of 0 0 1]
  have l2: "spec_label example_loader (spec_accepted_indices example_loader ! 0) (selectedTracks example_loader ! 0) (1 + 1) = 0"
    by (simp add: sel)
  have "distinct (dates example_loader_gap) \<and> createSlidingWindows example_loader_gap =
     (normalizeFeatures example_loader_gap, [], [])"
    by (simp add: example_distinct example_gap_windows)
  note g = target_labels [THEN mp, OF this]
  have c: "7 \<in> set (candidates (length (sortedDates example_loader_gap)))"
    by (simp add: candidates_def windowSize_def eleven_dates_def)
  with g example_gap_rejected
  have "window_at (normalizeFeatures example_loader_gap) (sortedDates (normalizeFeatures example_loader_gap)) 7 = None"
    by blast
  with l1 l2 c show ?thesis
    by (simp add: example_distinct example_windows example_gap_rejected)
qed

section \<open>Evaluation analyzer\<close>

lemma equal_sum_card:
  assumes "length xs = n" "length ys = n"
  shows "equal_sum (greater_cast c xs) (greater_cast c ys) = card {k. k < n \<and> (xs ! k > c) = (ys ! k > c)}"
proof -
  have "equal_sum (greater_cast c xs) (greater_cast c ys)
      = card {k. k < n \<and> (case zip (greater_cast c xs) (greater_cast c ys) ! k of (a, b) \<Rightarrow> a = b)}"
    using assms by (simp add: equal_sum_def length_filter_conv_card greater_cast_def)
  also have "{k. k < n \<and> (case zip (greater_cast c xs) (greater_cast c ys) ! k of (a, b) \<Rightarrow> a = b)}
      = {k. k < n \<and> (xs ! k > c) = (ys ! k > c)}"
    using assms by (auto simp: greater_cast_def split: if_splits)
  finally show ?thesis .
qed

lemma card_cells:
  fixes r c :: nat
  assumes "0 < c"
  shows "card {(i, j). i < r \<and> j < c \<and> P (i * c + j)} = card {k. k < r * c \<and> P k}"
proof -
  have "bij_betw (\<lambda>(i, j). i * c + j) {(i, j). i < r \<and> j < c \<and> P (i * c + j)} {k. k < r * c \<and> P k}"
  proof (rule bij_betw_byWitness [where f' = "\<lambda>k. (k div c, k mod c)"])
    show "(\<lambda>(i, j). i * c + j) ` {(i, j). i < r \<and> j < c \<and> P (i * c + j)} \<subseteq> {k. k < r * c \<and> P k}"
    proof clarsimp
      fix i j assume "i < r" "j < c"
      then have "i * c + j < i * c + c" by simp
      also have "\<dots> = Suc i * c" by simp
      also have "\<dots> \<le> r * c" using \<open>i < r\<close> by (intro mult_le_mono1) simp
      finally show "i * c + j < r * c" .
    qed
  qed (use assms in \<open>auto simp: less_mult_imp_div_less mult.commute\<close>)
  then show ?thesis by (rule bij_betw_same_card)
qed


text \<open>
  Claim C5. For a prediction and a truth tensor of one shape \<open>r \<times> c\<close>,
  \<open>computeConsistentAccuracy\<close> is \<open>100\<close> times the number of entries on which the two agree
  after thresholding at \<open>0.5\<close>, divided by \<open>r \<times> c\<close> taken from the shape. Predictions
  \<open>[[0.6, 0.4], [0.3, 0.7]]\<close> against targets \<open>[[1, 0], [0, 1]]\<close> give \<open>100\<close>.
\<close>

theorem computeConsistentAccuracy_counts:
  "(shape p = (r, c) \<and> shape y = (r, c) \<and> length (vals p) = r * c \<and> length (vals y) = r * c \<and> 0 < r \<and> 0 < c \<longrightarrow>
      computeConsistentAccuracy p y =
        Inr (Some (real (card {(i, j). i < r \<and> j < c \<and> (entry_at p i j > 0.5) = (entry_at y i j > 0.5)})
                   / real (r * c) * 100)))
   \<and> (tensor2d_of [[0.6, 0.4], [0.3, 0.7]] = Inr P \<and> tensor2d_of [[1, 0], [0, 1]] = Inr Y \<longrightarrow>
        computeConsistentAccuracy P Y = Inr (Some 100))"
proof (intro conjI impI)
  assume h: "shape p = (r, c) \<and> shape y = (r, c) \<and> length (vals p) = r * c \<and> length (vals y) = r * c \<and> 0 < r \<and> 0 < c"
  then have "equal_sum (greater_cast 0.5 (vals p)) (greater_cast 0.5 (vals y))
      = card {k. k < r * c \<and> (vals p ! k > 0.5) = (vals y ! k > 0.5)}"
    by (intro equal_sum_card) simp_all
  also have "\<dots> = card {(i, j). i < r \<and> j < c \<and> (vals p ! (i * c + j) > 0.5) = (vals y ! (i * c + j) > 0.5)}"
    using h card_cells [of c r "\<lambda>k. (vals p ! k > 0.5) = (vals y ! k > 0.5)"] by presburger
  finally show "computeConsistentAccuracy p y =
        Inr (Some (real (card {(i, j). i < r \<and> j < c \<and> (entry_at p i j > 0.5) = (entry_at y i j > 0.5)})
                   / real (r * c) * 100))"
    using h by (simp add: computeConsistentAccuracy_def entry_at_def Let_def)
next
  assume "tensor2d_of [[0.6, 0.4], [0.3, 0.7]] = Inr P \<and> tensor2d_of [[1, 0], [0, 1]] = Inr Y"
  then have "P = \<lparr>shape = (2, 2), vals = [0.6, 0.4, 0.3, 0.7]\<rparr>"
    and "Y = \<lparr>shape = (2, 2), vals = [1, 0, 0, 1]\<rparr>"
    by (auto simp: tensor2d_of_def)
  then show "computeConsistentAccuracy P Y = Inr (Some 100)"
    by (simp add: computeConsistentAccuracy_def greater_cast_def equal_sum_def)
qed

theorem computeConsistentAccuracy_counts_witness:
  "tensor2d_of [[0.6, 0.4], [0.3, 0.7]] = Inr \<lparr>shape = (2, 2), vals = [0.6, 0.4, 0.3, 0.7]\<rparr>
   \<and> tensor2d_of [[1, 0], [0, 1]] = Inr \<lparr>shape = (2, 2), vals = [1, 0, 0, 1]\<rparr>
   \<and> computeConsistentAccuracy \<lparr>shape = (2, 2), vals = [0.6, 0.4, 0.3, 0.7]\<rparr>
         \<lparr>shape = (2, 2), vals = [1, 0, 0, 1]\<rparr> = Inr (Some 100)
   \<and> computeConsistentAccuracy \<lparr>shape = (1, 3), vals = [0.9, 0.1, 0.2]\<rparr> \<lparr>shape = (1, 3), vals = [1, 1, 0]\<rparr> =
        Inr (Some (real (card {(i, j). i < (1::nat) \<and> j < (3::nat) \<and>
            (entry_at \<lparr>shape = (1, 3), vals = [0.9, 0.1, 0.2]\<rparr> i j > 0.5)
              = (entry_at \<lparr>shape = (1, 3), vals = [1, 1, 0]\<rparr> i j > 0.5)})
                   / real (1 * 3) * 100))"
proof -
  have t: "tensor2d_of [[0.6, 0.4], [0.3, 0.7]] = Inr \<lparr>shape = (2, 2), vals = [0.6, 0.4, 0.3, 0.7]\<rparr>
      \<and> tensor2d_of [[1, 0], [0, 1]] = Inr \<lparr>shape = (2, 2), vals = [1, 0, 0, 1]\<rparr>"
    by (simp add: tensor2d_of_def)
  note ex = computeConsistentAccuracy_counts [THEN conjunct2, THEN mp, OF t]
  have h: "shape \<lparr>shape = (1, 3), vals = [0.9, 0.1, 0.2]\<rparr> = (1, 3)
      \<and> shape \<lparr>shape = (1, 3), vals = [1, 1, 0]\<rparr> = (1, 3)
      \<and> length (vals \<lparr>shape = (1::nat, 3::nat), vals = [0.9, 0.1, 0.2]\<rparr>) = 1 * 3
      \<and> length (vals \<lparr>shape = (1::nat, 3::nat), vals = [1, 1, 0]\<rparr>) = 1 * 3 \<and> (0::nat) < 1 \<and> (0::nat) < 3"
    by simp
  note cnt = computeConsistentAccuracy_counts [THEN conjunct1, THEN mp, OF h]
  from t ex cnt show ?thesis by simp
qed

lemma breakout_fold:
  assumes "\<forall>row \<in> set predData. js_index row (int (k * 3)) = Some d1 \<and>
             js_index row (int (k * 3 + 1)) = Some d2 \<and> js_index row (int (k * 3 + 2)) = Some d3"
  shows "fold (breakout_step k) predData (Some a, Some b, m)
         = (Some (a + real (length predData) * ((d3 - d1) * 2 + (d2 - d1))),
            Some (b + real (length predData) * ((d1 + d2 + d3) / 3)),
            m + length predData)"
  using assms
proof (induction predData arbitrary: a b m)
  case Nil
  then show ?case by simp
next
  case (Cons row rows)
  have step: "breakout_step k row (Some a, Some b, m)
      = (Some (a + ((d3 - d1) * 2 + (d2 - d1))), Some (b + (d1 + d2 + d3) / 3), m + 1)"
    using Cons.prems by (simp add: breakout_step_def lift2_def trendStrength_def overallConfidence_def)
  have "fold (breakout_step k) (row # rows) (Some a, Some b, m)
      = fold (breakout_step k) rows (Some (a + ((d3 - d1) * 2 + (d2 - d1))), Some (b + (d1 + d2 + d3) / 3), m + 1)"
    by (simp add: step)
  also have "\<dots> = (Some (a + ((d3 - d1) * 2 + (d2 - d1)) + real (length rows) * ((d3 - d1) * 2 + (d2 - d1))),
            Some (b + (d1 + d2 + d3) / 3 + real (length rows) * ((d1 + d2 + d3) / 3)),
            m + 1 + length rows)"
    using Cons.prems by (intro Cons.IH) simp
  also have "\<dots> = (Some (a + real (length (row # rows)) * ((d3 - d1) * 2 + (d2 - d1))),
            Some (b + real (length (row # rows)) * ((d1 + d2 + d3) / 3)),
            m + length (row # rows))"
    by (simp add: distrib_right)
  finally show ?case .
qed


text \<open>
  Claim C6, as amended. For a track whose day probabilities are \<open>(0.2, 0.5, 0.8)\<close> in every
  sample, the trend strength is \<open>1.5\<close> and the confidence \<open>0.5\<close>; the reported score is
  \<open>150\<close>, the reported confidence \<open>50\<close>, and the risk level is \<open>high\<close>, since the
  confidence does not exceed \<open>0.6\<close>.
\<close>

theorem breakout_example:
  "predData \<noteq> [] \<and>
   (\<forall>row \<in> set predData. js_index row (int (k * 3)) = Some 0.2 \<and>
        js_index row (int (k * 3 + 1)) = Some 0.5 \<and> js_index row (int (k * 3 + 2)) = Some 0.8) \<longrightarrow>
   trendStrength (Some 0.2) (Some 0.5) (Some 0.8) = Some 1.5 \<and>
   overallConfidence (Some 0.2) (Some 0.5) (Some 0.8) = Some 0.5 \<and>
   track_breakout predData track k =
     \<lparr>trackId = meta_id track, trackName = meta_name track, breakoutScore = Some 150,
      confidence = Some 50, trend = ''rising'', riskLevel = ''high''\<rparr>"
proof (intro impI conjI)
  show "trendStrength (Some 0.2) (Some 0.5) (Some 0.8) = Some 1.5"
    by (simp add: trendStrength_def lift2_def)
  show "overallConfidence (Some 0.2) (Some 0.5) (Some 0.8) = Some 0.5"
    by (simp add: overallConfidence_def lift2_def)
  assume h: "predData \<noteq> [] \<and>
   (\<forall>row \<in> set predData. js_index row (int (k * 3)) = Some 0.2 \<and>
        js_index row (int (k * 3 + 1)) = Some 0.5 \<and> js_index row (int (k * 3 + 2)) = Some 0.8)"
  then have n: "real (length predData) \<noteq> 0" by simp
  from h have f: "\<forall>row \<in> set predData. js_index row (int (k * 3)) = Some 0.2 \<and>
        js_index row (int (k * 3 + 1)) = Some 0.5 \<and> js_index row (int (k * 3 + 2)) = Some 0.8"
    by simp
  show "track_breakout predData track k =
     \<lparr>trackId = meta_id track, trackName = meta_name track, breakoutScore = Some 150,
      confidence = Some 50, trend = ''rising'', riskLevel = ''high''\<rparr>"
    using n unfolding track_breakout_def breakout_fold [OF f, of 0 0 0]
    by (simp add: Let_def js_div_def lift2_def js_gt_def calculateRiskLevel_def)
qed

theorem breakout_example_witness:
  "[[0.2, 0.5, 0.8 :: real]] \<noteq> [] \<and>
   detectBreakoutTracks \<lparr>shape = (1, 3), vals = [0.2, 0.5, 0.8]\<rparr>
       [(''T'', \<lparr>meta_id = ''T'', meta_name = ''T'', totalStreams = Some 9\<rparr>)] =
     [\<lparr>trackId = ''T'', trackName = ''T'', breakoutScore = Some 150,
       confidence = Some 50, trend = ''rising'', riskLevel = ''high''\<rparr>]"
  using breakout_example [of "[[0.2, 0.5, 0.8]]" 0 "\<lparr>meta_id = ''T'', meta_name = ''T'', totalStreams = Some 9\<rparr>"]
  by (simp add: detectBreakoutTracks_def arraySync_def js_index_def js_sort_def)

text \<open>
  Claim C6, as stated, fails: with one sample \<open>(0.2, 0.5, 0.8)\<close> the risk level of the
  track is not \<open>low\<close>.
\<close>

theorem breakout_example_low_counterexample:
  "riskLevel (track_breakout [[0.2, 0.5, 0.8]] \<lparr>meta_id = ''T'', meta_name = ''T'', totalStreams = Some 9\<rparr> 0) \<noteq> ''low''"
  by (simp add: track_breakout_def breakout_step_def js_index_def trendStrength_def overallConfidence_def lift2_def
        js_div_def js_gt_def calculateRiskLevel_def)

section \<open>Normalizer: the training period\<close>

lemma splitIndex_eq: "splitIndex n = 4 * n div 5"
proof -
  have "real n * 0.8 = real (4 * n) / real 5" by simp
  then have "\<lfloor>real n * 0.8\<rfloor> = \<lfloor>real (4 * n) / real 5\<rfloor>" by (simp only:)
  also have "\<dots> = int (4 * n div 5)" by (rule floor_divide_of_nat_eq)
  finally show ?thesis by (simp add: splitIndex_def)
qed

lemma splitIndex_le: "splitIndex n \<le> n" and splitIndex_Suc_le: "splitIndex (n + 1) \<le> n"
  by (simp_all add: splitIndex_eq)

lemma splitIndex_stays: "splitIndex (n + 1) = splitIndex n \<longleftrightarrow> n mod 5 = 0"
  unfolding splitIndex_eq by presburger

lemma sort_snoc_greatest:
  fixes x :: "'a::linorder"
  assumes "\<forall>d \<in> set xs. d < x"
  shows "sort (xs @ [x]) = sort xs @ [x]"
proof (rule properties_for_sort)
  show "mset (sort xs @ [x]) = mset (xs @ [x])" by simp
  show "sorted (sort xs @ [x])"
    using assms by (auto simp: sorted_append less_imp_le)
qed

lemma push_entry_simps [simp]:
  "data (push_entry e L) = data L @ [e]"
  "selectedTracks (push_entry e L) = selectedTracks L"
  "dates (push_entry e L) = set_add (date e) (dates L)"
  "trackMetadata (push_entry e L) = trackMetadata L"
  by (simp_all add: push_entry_def)

lemma sortedDates_push_later:
  assumes "\<forall>d \<in> set (dates L). d < date r"
  shows "sortedDates (push_entry r L) = sortedDates L @ [date r]"
proof -
  from assms have "date r \<notin> set (dates L)" by auto
  then show ?thesis
    using assms by (simp add: sortedDates_def set_add_def sort_snoc_greatest)
qed

lemma trainingDates_push_later:
  assumes "\<forall>d \<in> set (dates L). d < date r"
  shows "trainingDates (push_entry r L) = set (take (splitIndex (length (dates L) + 1)) (sortedDates L))"
    and "date r \<notin> trainingDates (push_entry r L)"
proof -
  have len: "length (sortedDates L) = length (dates L)" by (simp add: sortedDates_def)
  show t: "trainingDates (push_entry r L) = set (take (splitIndex (length (dates L) + 1)) (sortedDates L))"
    using splitIndex_Suc_le [of "length (dates L)"]
    by (simp add: trainingDates_def sortedDates_push_later [OF assms] slice_def len)
  have "set (take (splitIndex (length (dates L) + 1)) (sortedDates L)) \<subseteq> set (dates L)"
    using set_take_subset [of _ "sortedDates L"] by (simp add: sortedDates_def)
  with assms show "date r \<notin> trainingDates (push_entry r L)"
    unfolding t by auto
qed

lemma fit_params_cong:
  assumes "selectedTracks L = selectedTracks L'"
    and "\<And>t. filter (\<lambda>d. track_id d = t \<and> date d \<in> trainingDates L) (data L)
             = filter (\<lambda>d. track_id d = t \<and> date d \<in> trainingDates L') (data L')"
  shows "fit_params L = fit_params L'"
proof -
  have "track_params L t = track_params L' t" for t
    by (rule ext) (simp add: track_params_apply assms(2))
  then show ?thesis
    by (simp add: fit_params_def assms(1))
qed

lemma trainingDates_data_update [simp]: "trainingDates (L\<lparr>data := ds\<rparr>) = trainingDates L"
  by (simp add: trainingDates_def sortedDates_def)

lemma four_day_streams:
  "track_params four_day_loader ''A'' F_streams = Some \<lparr>min_val = 1, max_val = 3\<rparr>"
  "track_params (push_entry (row ''D4'' ''A'' 5) four_day_loader) ''A'' F_streams
     = Some \<lparr>min_val = 1, max_val = 10\<rparr>"
  by (simp_all add: track_params_apply trainingDates_def sortedDates_def splitIndex_eq slice_def
        four_day_loader_def set_add_def feature_params_def map_filter_simps)

text \<open>
  Claim C3, as amended. The parameters are fitted to the rows whose date is among the
  first \<open>\<lfloor>0.8 \<times> n\<rfloor>\<close> of the \<open>n\<close> sorted dates, and to no other row. After a row with a date
  later than every existing date is appended, the fit does not read that row, and the
  parameters are the same as before whenever the cut-off index is the same,
  \<open>\<lfloor>0.8 \<times> (n + 1)\<rfloor> = \<lfloor>0.8 \<times> n\<rfloor>\<close>, which holds exactly when \<open>n\<close> is a multiple of \<open>5\<close>.
\<close>

theorem fit_uses_training_rows_only:
  "normalizationParams (normalizeFeatures L)
     = normalizationParams (normalizeFeatures (L\<lparr>data := filter (\<lambda>d. date d \<in> trainingDates L) (data L)\<rparr>))
   \<and> ((\<forall>d \<in> set (dates L). d < date r) \<longrightarrow>
        normalizationParams (normalizeFeatures (push_entry r L))
          = normalizationParams (normalizeFeatures ((push_entry r L)\<lparr>data := data L\<rparr>))
      \<and> (splitIndex (length (dates L) + 1) = splitIndex (length (dates L)) \<longrightarrow>
            normalizationParams (normalizeFeatures (push_entry r L)) = normalizationParams (normalizeFeatures L)))
   \<and> (splitIndex (n + 1) = splitIndex n \<longleftrightarrow> n mod 5 = 0)"
proof (intro conjI impI)
  show "normalizationParams (normalizeFeatures L)
     = normalizationParams (normalizeFeatures (L\<lparr>data := filter (\<lambda>d. date d \<in> trainingDates L) (data L)\<rparr>))"
    unfolding normalizationParams_normalizeFeatures
    by (rule fit_params_cong) (auto intro: filter_cong)
next
  assume later: "\<forall>d \<in> set (dates L). d < date r"
  note td = trainingDates_push_later [OF later]
  show "normalizationParams (normalizeFeatures (push_entry r L))
          = normalizationParams (normalizeFeatures ((push_entry r L)\<lparr>data := data L\<rparr>))"
    unfolding normalizationParams_normalizeFeatures
    by (rule fit_params_cong) (use td(2) in simp_all)
next
  assume later: "\<forall>d \<in> set (dates L). d < date r"
    and stay: "splitIndex (length (dates L) + 1) = splitIndex (length (dates L))"
  note td = trainingDates_push_later [OF later]
  have "trainingDates (push_entry r L) = trainingDates L"
    unfolding td(1) stay by (simp add: trainingDates_def slice_def sortedDates_def)
  then show "normalizationParams (normalizeFeatures (push_entry r L)) = normalizationParams (normalizeFeatures L)"
    unfolding normalizationParams_normalizeFeatures
    using td(2) by (intro fit_params_cong) simp_all
next
  show "splitIndex (n + 1) = splitIndex n \<longleftrightarrow> n mod 5 = 0"
    by (rule splitIndex_stays)
qed


theorem fit_uses_training_rows_only_witness:
  "sortedDates (push_entry (row ''D5'' ''A'' 50) five_day_loader) = sortedDates five_day_loader @ [''D5'']
   \<and> splitIndex (length (dates five_day_loader) + 1) = splitIndex (length (dates five_day_loader))
   \<and> normalizationParams (normalizeFeatures (push_entry (row ''D5'' ''A'' 50) five_day_loader))
        = normalizationParams (normalizeFeatures five_day_loader)
   \<and> track_params five_day_loader ''A'' F_streams = Some \<lparr>min_val = 1, max_val = 10\<rparr>"
proof -
  have later: "\<forall>d \<in> set (dates five_day_loader). d < date (row ''D5'' ''A'' 50)"
    by (simp add: five_day_loader_def)
  have stay: "splitIndex (length (dates five_day_loader) + 1) = splitIndex (length (dates five_day_loader))"
    by (simp add: five_day_loader_def splitIndex_eq)
  note r = fit_uses_training_rows_only [of five_day_loader "row ''D5'' ''A'' 50" 5,
      THEN conjunct2, THEN conjunct1, THEN mp, OF later, THEN conjunct2, THEN mp, OF stay]
  have s: "sortedDates (push_entry (row ''D5'' ''A'' 50) five_day_loader) = sortedDates five_day_loader @ [''D5'']"
    by (simp add: sortedDates_def five_day_loader_def set_add_def)
  have p: "track_params five_day_loader ''A'' F_streams = Some \<lparr>min_val = 1, max_val = 10\<rparr>"
    by (simp add: track_params_apply trainingDates_def sortedDates_def splitIndex_eq slice_def
        five_day_loader_def feature_params_def map_filter_simps)
  from r s stay p show ?thesis by simp
qed


text \<open>
  Claim C3, as stated, fails: with four dates the fit reads three of them; appending a row
  with a fifth, later date moves the cut-off to four, and the maximum of the streams of
  track \<open>A\<close> changes from \<open>3\<close> to \<open>10\<close>.
\<close>

theorem refit_changes_params_counterexample:
  "sortedDates (push_entry (row ''D4'' ''A'' 5) four_day_loader) = sortedDates four_day_loader @ [''D4'']
   \<and> track_params four_day_loader ''A'' F_streams = Some \<lparr>min_val = 1, max_val = 3\<rparr>
   \<and> track_params (push_entry (row ''D4'' ''A'' 5) four_day_loader) ''A'' F_streams
        = Some \<lparr>min_val = 1, max_val = 10\<rparr>
   \<and> normalizationParams (normalizeFeatures (push_entry (row ''D4'' ''A'' 5) four_day_loader))
        \<noteq> normalizationParams (normalizeFeatures four_day_loader)"
proof -
  have s: "sortedDates (push_entry (row ''D4'' ''A'' 5) four_day_loader) = sortedDates four_day_loader @ [''D4'']"
    by (simp add: sortedDates_def four_day_loader_def set_add_def)
  have "fit_params (push_entry (row ''D4'' ''A'' 5) four_day_loader) ''A''
      \<noteq> fit_params four_day_loader ''A''"
  proof
    assume "fit_params (push_entry (row ''D4'' ''A'' 5) four_day_loader) ''A'' = fit_params four_day_loader ''A''"
    then have "track_params (push_entry (row ''D4'' ''A'' 5) four_day_loader) ''A''
        = track_params four_day_loader ''A''"
      by (simp add: fit_params_apply four_day_loader_def)
    then have "track_params (push_entry (row ''D4'' ''A'' 5) four_day_loader) ''A'' F_streams
        = track_params four_day_loader ''A'' F_streams"
      by simp
    then show False by (simp add: four_day_streams)
  qed
  then have "fit_params (push_entry (row ''D4'' ''A'' 5) four_day_loader) \<noteq> fit_params four_day_loader"
    by auto
  with s show ?thesis
    by (simp add: four_day_streams normalizationParams_normalizeFeatures)
qed

section \<open>Track selector: ranking\<close>

lemma set_first_seen [simp]: "set (spec_first_seen xs) = set xs"
  by (induction xs) auto

lemma distinct_first_seen [simp]: "distinct (spec_first_seen xs)"
  by (induction xs) auto

lemma first_seen_snoc:
  "spec_first_seen (xs @ [x]) = (if x \<in> set xs then spec_first_seen xs else spec_first_seen xs @ [x])"
  by (induction xs) auto

lemma spec_total_snoc:
  "spec_total (ds @ [e]) t = spec_total ds t + (if track_id e = t then streams e else 0)"
  by (simp add: spec_total_def)

lemma spec_total_absent: "t \<notin> track_id ` set ds \<Longrightarrow> spec_total ds t = 0"
proof -
  assume "t \<notin> track_id ` set ds"
  then have "filter (\<lambda>e. track_id e = t) ds = []"
    by (auto simp: filter_empty_conv)
  then show ?thesis by (simp add: spec_total_def)
qed

lemma map_of_graph:
  "map_of (map (\<lambda>t. (t, g t)) ts) k = (if k \<in> set ts then Some (g k) else None)"
  by (induction ts) auto

lemma map_set_graph:
  "map_set k v (map (\<lambda>t. (t, g t)) ts)
     = (if k \<in> set ts then map (\<lambda>t. (t, (g(k := v)) t)) ts
        else map (\<lambda>t. (t, (g(k := v)) t)) (ts @ [k]))"
  if "distinct ts"
  using that by (induction ts) auto

lemma trackStreams_of_snoc:
  "trackStreams_of (ds @ [e])
     = map_set (track_id e) (js_or (map_of (trackStreams_of ds) (track_id e)) 0 + streams e) (trackStreams_of ds)"
  by (simp add: trackStreams_of_def)

lemma trackStreams_of_eq:
  "trackStreams_of ds = map (\<lambda>t. (t, spec_total ds t)) (spec_first_seen (map track_id ds))"
proof (induction ds rule: rev_induct)
  case Nil
  then show ?case by (simp add: trackStreams_of_def)
next
  case (snoc e ds)
  let ?k = "track_id e"
  let ?ts = "spec_first_seen (map track_id ds)"
  have cur: "js_or (map_of (trackStreams_of ds) ?k) 0 = spec_total ds ?k"
    by (auto simp: snoc.IH map_of_graph js_or_def spec_total_absent)
  have upd: "(spec_total ds)(?k := spec_total ds ?k + streams e) = spec_total (ds @ [e])"
    by (rule ext) (simp add: spec_total_snoc)
  show ?case
    unfolding trackStreams_of_snoc cur
    unfolding snoc.IH
    by (simp add: map_set_graph upd first_seen_snoc)
qed

lemma insert_by_graph:
  "insert_by (\<lambda>a b. snd b - snd a) (t, g t) (map (\<lambda>t. (t, g t)) ts)
     = map (\<lambda>t. (t, g t)) (insort_key (\<lambda>t. - g t) t ts)"
  by (induction ts) auto

lemma js_sort_graph:
  "js_sort (\<lambda>a b. snd b - snd a) (map (\<lambda>t. (t, g t)) ts)
     = map (\<lambda>t. (t, (g t :: real))) (sort_key (\<lambda>t. - g t) ts)"
  by (induction ts) (simp_all add: js_sort_def insert_by_graph [where g = g])

lemma selectedTracks_selectTopTracks:
  "selectedTracks (selectTopTracks n L) = take n (spec_ranking (data L))"
  by (simp add: selectTopTracks_def Let_def trackStreams_of_eq js_sort_graph spec_ranking_def
        take_map comp_def)

lemma filter_eq_distinct:
  "distinct xs \<Longrightarrow> k \<in> set xs \<Longrightarrow> filter (\<lambda>x. k = x) xs = [k]"
  by (induction xs) (auto simp: filter_empty_conv)

lemma ranking_three:
  assumes "set (map track_id ds) = {a, b, c}"
    and "spec_total ds c > spec_total ds a" "spec_total ds a > spec_total ds b"
  shows "spec_ranking ds = [c, a, b]"
proof -
  let ?xs = "spec_first_seen (map track_id ds)"
  let ?f = "\<lambda>t. - spec_total ds t"
  from assms have ne: "a \<noteq> b" "a \<noteq> c" "b \<noteq> c" by auto
  have d: "distinct ?xs" and s: "set ?xs = {a, b, c}" using assms(1) by simp_all
  have m: "mset ?xs = mset [c, a, b]"
    using d s ne by (intro set_eq_iff_mset_eq_distinct [THEN iffD1]) auto
  have "sort_key ?f ?xs = [c, a, b]"
  proof (rule properties_for_sort_key)
    show "mset [c, a, b] = mset ?xs" using m by simp
    show "sorted (map ?f [c, a, b])" using assms(2,3) by simp
    fix k assume "k \<in> set [c, a, b]"
    have "filter (\<lambda>x. ?f k = ?f x) ?xs = filter (\<lambda>x. k = x) ?xs"
    proof (rule filter_cong [OF refl])
      fix x assume "x \<in> set ?xs"
      with s have "x \<in> {a, b, c}" by simp
      with \<open>k \<in> set [c, a, b]\<close> assms(2,3) show "(?f k = ?f x) = (k = x)"
        by auto
    qed
    also have "\<dots> = [k]"
      using d s \<open>k \<in> set [c, a, b]\<close> by (intro filter_eq_distinct) auto
    finally have l: "filter (\<lambda>x. ?f k = ?f x) ?xs = [k]" .
    have "filter (\<lambda>x. ?f k = ?f x) [c, a, b] = [k]"
      using \<open>k \<in> set [c, a, b]\<close> ne assms(2,3) by auto
    with l show "filter (\<lambda>x. ?f k = ?f x) [c, a, b] = filter (\<lambda>x. ?f k = ?f x) ?xs"
      by simp
  qed
  then show ?thesis by (simp add: spec_ranking_def)
qed

lemma sorted_ranking:
  "sorted_wrt (\<lambda>a b. spec_total ds a \<ge> spec_total ds b) (spec_ranking ds)"
proof -
  have "sorted (map (\<lambda>t. - spec_total ds t) (spec_ranking ds))"
    unfolding spec_ranking_def by (rule sorted_sort_key)
  then show ?thesis by (simp add: sorted_map)
qed

lemma stable_ranking:
  "filter (\<lambda>t. spec_total ds t = v) (spec_ranking ds)
     = filter (\<lambda>t. spec_total ds t = v) (spec_first_seen (map track_id ds))"
proof -
  have "filter (\<lambda>t. - spec_total ds t = - v) (spec_ranking ds)
     = filter (\<lambda>t. - spec_total ds t = - v) (spec_first_seen (map track_id ds))"
    unfolding spec_ranking_def by (rule sort_key_stable)
  then show ?thesis by simp
qed

lemma set_ranking [simp]: "set (spec_ranking ds) = track_id ` set ds"
  and distinct_ranking [simp]: "distinct (spec_ranking ds)"
  by (simp_all add: spec_ranking_def)

lemma tie_example:
  "selectedTracks (selectTopTracks 2
        (loader_of [row ''D0'' ''B'' 7, row ''D0'' ''A'' 3, row ''D0'' ''C'' 7, row ''D1'' ''A'' 4] [''D0'', ''D1''] []))
      = [''B'', ''A'']"
  by (simp add: selectTopTracks_def trackStreams_of_def js_or_def js_sort_def)

text \<open>
  Claim C8. The selected tracks are the first \<open>n\<close> of the ranking of the specification:
  the distinct tracks of the table ordered by descending total of streams, tracks of equal
  total in the order in which they were first encountered. For tracks \<open>A\<close>, \<open>B\<close>, \<open>C\<close> with
  totals \<open>100\<close>, \<open>50\<close>, \<open>200\<close> and \<open>n = 2\<close> the selection is \<open>[C, A]\<close>.
\<close>

theorem selectTopTracks_ranking:
  "selectedTracks (selectTopTracks n L) = take n (spec_ranking (data L))
   \<and> sorted_wrt (\<lambda>a b. spec_total (data L) a \<ge> spec_total (data L) b) (spec_ranking (data L))
   \<and> filter (\<lambda>t. spec_total (data L) t = v) (spec_ranking (data L))
       = filter (\<lambda>t. spec_total (data L) t = v) (spec_first_seen (map track_id (data L)))
   \<and> distinct (spec_ranking (data L))
   \<and> set (spec_ranking (data L)) = track_id ` set (data L)
   \<and> (track_id ` set (data L) = {a, b, c} \<and> spec_total (data L) a = 100 \<and>
        spec_total (data L) b = 50 \<and> spec_total (data L) c = 200 \<longrightarrow>
        selectedTracks (selectTopTracks 2 L) = [c, a])"
proof (intro conjI impI)
  assume h: "track_id ` set (data L) = {a, b, c} \<and> spec_total (data L) a = 100 \<and>
        spec_total (data L) b = 50 \<and> spec_total (data L) c = 200"
  then have "spec_ranking (data L) = [c, a, b]"
    by (intro ranking_three) simp_all
  then show "selectedTracks (selectTopTracks 2 L) = [c, a]"
    by (simp add: selectedTracks_selectTopTracks)
qed (simp_all add: selectedTracks_selectTopTracks sorted_ranking stable_ranking)

theorem selectTopTracks_ranking_witness:
  "track_id ` set (data (loader_of [row ''D0'' ''A'' 100, row ''D0'' ''B'' 50, row ''D0'' ''C'' 200] [''D0''] []))
      = {''A'', ''B'', ''C''}
   \<and> spec_total [row ''D0'' ''A'' 100, row ''D0'' ''B'' 50, row ''D0'' ''C'' 200] ''A'' = 100
   \<and> spec_total [row ''D0'' ''A'' 100, row ''D0'' ''B'' 50, row ''D0'' ''C'' 200] ''B'' = 50
   \<and> spec_total [row ''D0'' ''A'' 100, row ''D0'' ''B'' 50, row ''D0'' ''C'' 200] ''C'' = 200
   \<and> selectedTracks (selectTopTracks 2
        (loader_of [row ''D0'' ''A'' 100, row ''D0'' ''B'' 50, row ''D0'' ''C'' 200] [''D0''] []))
      = [''C'', ''A'']"
proof -
  let ?L = "loader_of [row ''D0'' ''A'' 100, row ''D0'' ''B'' 50, row ''D0'' ''C'' 200] [''D0''] []"
  have h: "track_id ` set (data ?L) = {''A'', ''B'', ''C''} \<and> spec_total (data ?L) ''A'' = 100 \<and>
        spec_total (data ?L) ''B'' = 50 \<and> spec_total (data ?L) ''C'' = 200"
    by (simp add: spec_total_def)
  note r = selectTopTracks_ranking [of 2 ?L 0 "''A''" "''B''" "''C''",
      THEN conjunct2, THEN conjunct2, THEN conjunct2, THEN conjunct2, THEN conjunct2, THEN mp, OF h]
  from h r show ?thesis by simp
qed

section \<open>Track metadata across loads\<close>

lemma fold_map_set_fresh:
  assumes "distinct ts" "set ts \<inter> fst ` set m = {}"
  shows "fold (\<lambda>t m. map_set t (h t) m) ts m = m @ map (\<lambda>t. (t, h t)) ts"
  using assms
proof (induction ts arbitrary: m)
  case Nil
  then show ?case by simp
next
  case (Cons t ts)
  have app: "map_set t v m = m @ [(t, v)]" if "t \<notin> fst ` set m" for v and m :: "('a \<times> 'b) list"
    using that by (induction m) auto
  from Cons.prems have t: "t \<notin> fst ` set m" by auto
  have "fold (\<lambda>t m. map_set t (h t) m) ts (m @ [(t, h t)]) = (m @ [(t, h t)]) @ map (\<lambda>t. (t, h t)) ts"
    using Cons.prems by (intro Cons.IH) auto
  then show ?case by (simp add: app [OF t])
qed

lemma trackMetadata_fresh:
  assumes "trackMetadata L = []"
  shows "map fst (trackMetadata (selectTopTracks n L)) = selectedTracks (selectTopTracks n L)"
proof -
  let ?sel = "take n (spec_ranking (data L))"
  let ?data' = "filter (\<lambda>e. track_id e \<in> set ?sel) (data L)"
  let ?h = "\<lambda>t. \<lparr>meta_id = t, meta_name = t, totalStreams = map_of (trackStreams_of (data L)) t\<rparr>"
  have found: "List.find (\<lambda>d. track_id d = t) ?data' \<noteq> None" if "t \<in> set ?sel" for t
  proof -
    from that have "t \<in> set (spec_ranking (data L))" by (rule in_set_takeD)
    then have "t \<in> track_id ` set (data L)" by (simp add: spec_ranking_def)
    with that show ?thesis by (auto simp: find_None_iff)
  qed
  have step: "fold (\<lambda>trackId m.
                 case List.find (\<lambda>d. track_id d = trackId) ?data' of
                   Some trackData \<Rightarrow> map_set trackId (?h trackId) m
                 | None \<Rightarrow> m) ts m0
      = fold (\<lambda>t m. map_set t (?h t) m) ts m0" if "set ts \<subseteq> set ?sel" for ts m0
    using that
  proof (induction ts arbitrary: m0)
    case Nil
    then show ?case by simp
  next
    case (Cons t ts)
    then have "t \<in> set ?sel" by simp
    from found [OF this] obtain d where "List.find (\<lambda>d. track_id d = t) ?data' = Some d"
      by auto
    with Cons show ?case by simp
  qed
  have d: "distinct ?sel"
    by (simp add: spec_ranking_def)
  have st: "map fst (take n (js_sort (\<lambda>a b. snd b - snd a) (trackStreams_of (data L)))) = ?sel"
    by (simp add: trackStreams_of_eq js_sort_graph spec_ranking_def take_map comp_def)
  have "trackMetadata (selectTopTracks n L)
      = fold (\<lambda>trackId m.
                 case List.find (\<lambda>d. track_id d = trackId) ?data' of
                   Some trackData \<Rightarrow> map_set trackId (?h trackId) m
                 | None \<Rightarrow> m) ?sel (trackMetadata L)"
    unfolding selectTopTracks_def Let_def st by simp
  also have "\<dots> = fold (\<lambda>t m. map_set t (?h t) m) ?sel []"
    using step [of ?sel "[]"] assms by simp
  also have "\<dots> = [] @ map (\<lambda>t. (t, ?h t)) ?sel"
    using d by (intro fold_map_set_fresh) simp_all
  finally show ?thesis
    by (simp add: selectedTracks_selectTopTracks comp_def)
qed

text \<open>
  Claim C10 holds for a loader whose \<open>trackMetadata\<close> is empty (\<open>trackMetadata_fresh\<close>),
  but \<open>parseCSV\<close> and \<open>selectTopTracks\<close> never clear the map, and a key that is set again
  keeps its place. After a second file in which track \<open>B\<close> outranks track \<open>A\<close>, the
  selected tracks are \<open>[B, A]\<close> while the keys of \<open>trackMetadata\<close> are still \<open>[A, B]\<close>: the
  position of a track in \<open>trackMetadata\<close> is then not its position in the tensor columns.
\<close>

theorem reload_breaks_metadata_order:
  "case load_twice parseFloat_digits
       (unlines [''date,track,streams'', ''2024-01-01,A,10'', ''2024-01-01,B,5''])
       (unlines [''date,track,streams'', ''2024-02-01,A,5'', ''2024-02-01,B,10'']) of
     Inl e \<Rightarrow> False
   | Inr L \<Rightarrow> selectedTracks L = [''B'', ''A''] \<and> map fst (trackMetadata L) = [''A'', ''B'']
        \<and> dates L = [''2024-01-01'', ''2024-02-01'']"
  by code_simp

section \<open>Record store: retained rows\<close>

lemma parse_row_skips_short:
  "int (length values) < max (dateIdx c) (max (trackIdx c) (max (streamsIdx c) (max (danceabilityIdx c) (energyIdx c))))
     \<Longrightarrow> parse_row pf c values L = L"
  unfolding parse_row_def by (simp only: not_le [symmetric] if_False)

lemma parse_row_nonempty:
  assumes "\<forall>e \<in> set (data L). track_id e \<noteq> [] \<and> date e \<noteq> []"
  shows "\<forall>e \<in> set (data (parse_row pf c values L)). track_id e \<noteq> [] \<and> date e \<noteq> []"
  using assms by (auto simp: parse_row_def push_entry_def split: option.splits)

lemma parse_rows_nonempty:
  "\<forall>e \<in> set (data (parse_rows pf c rows L)). track_id e \<noteq> [] \<and> date e \<noteq> []"
proof -
  have "\<forall>e \<in> set (data (fold (\<lambda>line. parse_row pf c (parseCSVLine line)) rows L')). track_id e \<noteq> [] \<and> date e \<noteq> []"
    if "\<forall>e \<in> set (data L'). track_id e \<noteq> [] \<and> date e \<noteq> []" for L'
    using that
  proof (induction rows arbitrary: L')
    case Nil
    then show ?case by simp
  next
    case (Cons r rows)
    show ?case
      unfolding fold_simps
      by (rule Cons.IH) (rule parse_row_nonempty [OF Cons.prems])
  qed
  from this [of "L\<lparr>data := []\<rparr>"] show ?thesis by (simp add: parse_rows_def)
qed

text \<open>
  Claim C9. Every retained row has a non-empty track id and a non-empty date
  (\<open>parse_rows_nonempty\<close>), and a row with fewer values than the largest of the five
  guarded column indices is skipped (\<open>parse_row_skips_short\<close>). The guard compares with
  \<open>\<ge>\<close>, though: with the columns located at \<open>0 .. 4\<close>, a row of four values, which has
  no value at index \<open>4\<close>, passes it and is retained with \<open>energy = 0\<close>.
\<close>

theorem short_row_is_retained:
  "locate_columns (map (\<lambda>h. strip_quotes (trim h)) (split_on (CHR 0x2C) ''date,track,streams,danceability,energy''))
     = \<lparr>dateIdx = 0, trackIdx = 1, streamsIdx = 2, danceabilityIdx = 3, energyIdx = 4,
        valenceIdx = - 1, acousticnessIdx = - 1\<rparr>
   \<and> parseCSVLine ''2024-01-01,A,100,0.5'' = [''2024-01-01'', ''A'', ''100'', ''0.5'']
   \<and> (case parseCSV pf (unlines [''date,track,streams,danceability,energy'', ''2024-01-01,A,100,0.5'']) new_loader of
        Inl e \<Rightarrow> False
      | Inr L \<Rightarrow> map (\<lambda>e. (date e, track_id e, energy e)) (data L) = [(''2024-01-01'', ''A'', 0)])"
proof (intro conjI)
  show c: "locate_columns (map (\<lambda>h. strip_quotes (trim h)) (split_on (CHR 0x2C) ''date,track,streams,danceability,energy''))
     = \<lparr>dateIdx = 0, trackIdx = 1, streamsIdx = 2, danceabilityIdx = 3, energyIdx = 4,
        valenceIdx = - 1, acousticnessIdx = - 1\<rparr>"
    by (simp add: locate_columns_def locate_def to_lower_def trim_def strip_quotes_def is_space_def)
  show v: "parseCSVLine ''2024-01-01,A,100,0.5'' = [''2024-01-01'', ''A'', ''100'', ''0.5'']"
    by (simp add: parseCSVLine_def trim_def strip_quotes_def is_space_def)
  have l: "filter (\<lambda>line. trim line \<noteq> [])
      (split_on (CHR 0x0A) (unlines [''date,track,streams,danceability,energy'', ''2024-01-01,A,100,0.5'']))
      = [''date,track,streams,danceability,energy'', ''2024-01-01,A,100,0.5'']"
    by (simp add: unlines_def trim_def is_space_def)
  show "case parseCSV pf (unlines [''date,track,streams,danceability,energy'', ''2024-01-01,A,100,0.5'']) new_loader of
        Inl e \<Rightarrow> False
      | Inr L \<Rightarrow> map (\<lambda>e. (date e, track_id e, energy e)) (data L) = [(''2024-01-01'', ''A'', 0)]"
    unfolding parseCSV_def l list.case Let_def c
    by (simp add: parse_rows_def v parse_row_def js_index_def num_field_def js_or_def push_entry_def
        new_loader_def set_add_def selectTopTracks_def trackStreams_of_def js_sort_def
        engineerFeatures_def engineer_track_def Let_def)
qed

end
